theory Spec2Isabelle
  imports Main "HOL-Library.Word" "HOL-Library.Sublist" "HOL-Library.Multiset"
begin

section \<open>The native client library as seen by the wrapper\<close>

text \<open>
  The wrapper (\<^verbatim>\<open>libmysqlclient_cpp_wrapper.h\<close>) is a header over the C client library.
  Machine types follow the LP64 data model: pointers, \<^verbatim>\<open>std::size_t\<close> and
  \<^verbatim>\<open>unsigned long\<close> are 64-bit words, \<^verbatim>\<open>int\<close> and \<^verbatim>\<open>unsigned\<close> are 32-bit words,
  \<^verbatim>\<open>my_bool\<close> is one byte. The null pointer is the word 0. Every cast of the source is
  written out with \<open>ucast\<close> or \<open>scast\<close>.
\<close>

type_synonym ptr = "64 word"
type_synonym size_t = "64 word"
type_synonym unsigned_long = "64 word"
type_synonym c_int = "32 word"
type_synonym c_unsigned = "32 word"
type_synonym my_bool = "8 word"

text \<open>
  Modelled from the spec: the native buffer-type tags. The enumeration
  \<^verbatim>\<open>enum_field_types\<close> is declared by the client library's header, which is not part of the
  repository; these are the members the wrapper names, and \<open>MYSQL_TYPE_DECIMAL\<close>, the
  member with value 0 that \<^verbatim>\<open>memset\<close> leaves in a zeroed descriptor.
\<close>

datatype enum_field_types =
    MYSQL_TYPE_DECIMAL
  | MYSQL_TYPE_TINY
  | MYSQL_TYPE_SHORT
  | MYSQL_TYPE_LONG
  | MYSQL_TYPE_FLOAT
  | MYSQL_TYPE_DOUBLE
  | MYSQL_TYPE_LONGLONG
  | MYSQL_TYPE_BLOB
  | MYSQL_TYPE_STRING

text \<open>
  Modelled from the spec: the native binding descriptor \<^verbatim>\<open>MYSQL_BIND\<close> (buffer type tag,
  buffer pointer, buffer length), declared by the client library's header. Beside the three
  members the wrapper assigns, the record has the other documented members of the
  descriptor, so that zeroing them is visible.
\<close>

record MYSQL_BIND =
  buffer_type :: enum_field_types
  buffer :: ptr
  buffer_length :: unsigned_long
  length_ptr :: ptr
  is_null :: ptr
  is_unsigned :: my_bool
  error_ptr :: ptr

text \<open>\<^verbatim>\<open>memset(&parameter, 0, sizeof(parameter))\<close>\<close>

definition memset_zero :: MYSQL_BIND where
  "memset_zero = \<lparr>buffer_type = MYSQL_TYPE_DECIMAL, buffer = 0, buffer_length = 0,
     length_ptr = 0, is_null = 0, is_unsigned = 0, error_ptr = 0\<rparr>"

text \<open>
  A native call with the arguments the wrapper passes. The wrapper's own state never
  depends on anything but the value a native call returns, so each operation below takes
  that value as an argument and reports the calls it made.
\<close>

datatype native_call =
    Mysql_library_init c_int ptr ptr
  | Mysql_library_end
  | Mysql_init ptr
  | Mysql_close ptr
  | Mysql_real_connect ptr string string "string option" string c_unsigned ptr unsigned_long
  | Mysql_autocommit ptr my_bool
  | Mysql_get_server_version ptr
  | Mysql_stmt_init ptr
  | Mysql_stmt_close ptr
  | Mysql_stmt_prepare ptr string unsigned_long
  | Mysql_stmt_error ptr
  | Mysql_stmt_bind_param ptr "MYSQL_BIND list"
  | Mysql_stmt_bind_result ptr "MYSQL_BIND list"
  | Mysql_stmt_execute ptr
  | Mysql_stmt_fetch ptr
  | Mysql_stmt_free_result ptr

text \<open>The exceptions the wrapper throws; \<^verbatim>\<open>std::vector::at\<close> throws \<open>Out_of_range\<close>.\<close>

datatype exn =
    Runtime_error string
  | Logic_error string
  | Out_of_range

text \<open>
  What a member function does: the native calls it made, in order, the value it returned
  (\<open>Inr\<close>) or the exception it threw (\<open>Inl\<close>), and the object afterwards.
\<close>

record ('r, 'o) ret =
  calls :: "native_call list"
  outcome :: "exn + 'r"
  after :: 'o

section \<open>MySQLClientLibrary\<close>

record MySQLClientLibrary =
  lib_errorCode :: c_int

text \<open>The constructor; \<open>init_ret\<close> is what \<^verbatim>\<open>mysql_library_init\<close> returns.\<close>

definition MySQLClientLibrary_ctor ::
  "c_int \<Rightarrow> ptr \<Rightarrow> ptr \<Rightarrow> c_int \<Rightarrow> (MySQLClientLibrary, unit) ret" where
  "MySQLClientLibrary_ctor argc argv groups init_ret =
     (let this = \<lparr>lib_errorCode = init_ret\<rparr> in
      \<lparr>calls = [Mysql_library_init argc argv groups],
       outcome = (if lib_errorCode this \<noteq> 0
                  then Inl (Runtime_error ''failed to initialize MySQL client library'')
                  else Inr this),
       after = ()\<rparr>)"

text \<open>The destructor: the native calls it makes.\<close>

definition MySQLClientLibrary_dtor :: "MySQLClientLibrary \<Rightarrow> native_call list" where
  "MySQLClientLibrary_dtor this =
     (if lib_errorCode this = 0 then [Mysql_library_end] else [])"

section \<open>MySQLConnection\<close>

text \<open>
  A \<^verbatim>\<open>std::shared_ptr\<close> to a wrapper object is the identity of the object it owns, or
  \<open>None\<close> when it is empty.
\<close>

type_synonym addr = nat

record MySQLConnection =
  m_library :: "addr option"
  m_mysql :: ptr

text \<open>The constructor; \<open>init_ret\<close> is what \<^verbatim>\<open>mysql_init(nullptr)\<close> returns.\<close>

definition MySQLConnection_ctor :: "addr option \<Rightarrow> ptr \<Rightarrow> (MySQLConnection, unit) ret" where
  "MySQLConnection_ctor library init_ret =
     (let this = \<lparr>m_library = library, m_mysql = init_ret\<rparr> in
      \<lparr>calls = [Mysql_init 0],
       outcome = (if m_mysql this = 0
                  then Inl (Runtime_error ''failed to initialize connection object'')
                  else Inr this),
       after = ()\<rparr>)"

definition MySQLConnection_dtor :: "MySQLConnection \<Rightarrow> native_call list" where
  "MySQLConnection_dtor this =
     (if m_mysql this \<noteq> 0 then [Mysql_close (m_mysql this)] else [])"

text \<open>\<open>connect\<close>; \<open>native_ret\<close> is what \<^verbatim>\<open>mysql_real_connect\<close> returns.\<close>

definition connect ::
  "string \<Rightarrow> c_unsigned \<Rightarrow> string \<Rightarrow> string \<Rightarrow> string option \<Rightarrow> unsigned_long \<Rightarrow> ptr \<Rightarrow>
   MySQLConnection \<Rightarrow> (unit, MySQLConnection) ret" where
  "connect host port database user password clientFlags native_ret this =
     \<lparr>calls = [Mysql_real_connect (m_mysql this) host user password database port 0 clientFlags],
      outcome = (if native_ret = 0
                 then Inl (Runtime_error ''could not connect to database server'')
                 else Inr ()),
      after = this\<rparr>"

text \<open>\<open>setAutoCommit\<close>; \<open>native_ret\<close> is what \<^verbatim>\<open>mysql_autocommit\<close> returns.\<close>

definition setAutoCommit :: "bool \<Rightarrow> my_bool \<Rightarrow> MySQLConnection \<Rightarrow> (unit, MySQLConnection) ret" where
  "setAutoCommit autoCommit native_ret this =
     \<lparr>calls = [Mysql_autocommit (m_mysql this) (if autoCommit then 1 else 0)],
      outcome = (if native_ret \<noteq> 0
                 then Inl (Runtime_error (''could not set autocommit mode to '' @
                                          (if autoCommit then ''on'' else ''off'')))
                 else Inr ()),
      after = this\<rparr>"

text \<open>\<open>getServerVersion\<close>; \<open>native_ret\<close> is what \<^verbatim>\<open>mysql_get_server_version\<close> returns.\<close>

definition getServerVersion ::
  "unsigned_long \<Rightarrow> MySQLConnection \<Rightarrow> (unsigned_long, MySQLConnection) ret" where
  "getServerVersion native_ret this =
     \<lparr>calls = [Mysql_get_server_version (m_mysql this)],
      outcome = Inr native_ret,
      after = this\<rparr>"

section \<open>MySQLPreparedStatement\<close>

record MySQLPreparedStatement =
  m_conn :: addr
  m_stmt :: ptr
  m_parameters :: "MYSQL_BIND list"
  m_results :: "MYSQL_BIND list"
  m_errorCode :: c_int

text \<open>
  The constructor; \<open>conn_mysql\<close> is the native handle of the connection
  (\<^verbatim>\<open>(MYSQL*)*conn\<close>) and \<open>init_ret\<close> is what \<^verbatim>\<open>mysql_stmt_init\<close> returns.
\<close>

definition MySQLPreparedStatement_ctor ::
  "addr \<Rightarrow> ptr \<Rightarrow> ptr \<Rightarrow> (MySQLPreparedStatement, unit) ret" where
  "MySQLPreparedStatement_ctor conn conn_mysql init_ret =
     (let this = \<lparr>m_conn = conn, m_stmt = init_ret, m_parameters = [], m_results = [],
                  m_errorCode = 0\<rparr> in
      \<lparr>calls = [Mysql_stmt_init conn_mysql],
       outcome = (if m_stmt this = 0
                  then Inl (Runtime_error ''failed to initialize MySQL prepared statement object'')
                  else Inr this),
       after = ()\<rparr>)"

definition MySQLPreparedStatement_dtor :: "MySQLPreparedStatement \<Rightarrow> native_call list" where
  "MySQLPreparedStatement_dtor this =
     (if m_stmt this \<noteq> 0 then [Mysql_stmt_close (m_stmt this)] else [])"

definition getErrorCode :: "MySQLPreparedStatement \<Rightarrow> c_int" where
  "getErrorCode this = m_errorCode this"

text \<open>
  \<open>prepare(const char*, std::size_t)\<close>. The C string is the bytes before its terminator;
  \<open>native_ret\<close> is what \<^verbatim>\<open>mysql_stmt_prepare\<close> returns and \<open>native_error\<close> what
  \<^verbatim>\<open>mysql_stmt_error\<close> returns when it is asked.
\<close>

definition npos :: size_t where
  "npos = - 1"

definition strlen :: "string \<Rightarrow> size_t" where
  "strlen s = of_nat (length (takeWhile (\<lambda>c. c \<noteq> CHR 0x00) s))"

definition prepare ::
  "string \<Rightarrow> size_t \<Rightarrow> c_int \<Rightarrow> string \<Rightarrow> MySQLPreparedStatement \<Rightarrow>
   (unit, MySQLPreparedStatement) ret" where
  "prepare sql len0 native_ret native_error this =
     (let len = (if len0 = npos then strlen sql else len0);
          this1 = this\<lparr>m_errorCode := native_ret\<rparr>
      in if m_errorCode this1 \<noteq> 0
         then \<lparr>calls = [Mysql_stmt_prepare (m_stmt this) sql (ucast len),
                         Mysql_stmt_error (m_stmt this)],
               outcome = Inl (Runtime_error
                                (''failed to prepare prepared statement: '' @ native_error)),
               after = this1\<rparr>
         else \<lparr>calls = [Mysql_stmt_prepare (m_stmt this) sql (ucast len)],
               outcome = Inr (),
               after = this1\<rparr>)"

text \<open>\<open>prepare(const std::string&)\<close>\<close>

definition prepare_string ::
  "string \<Rightarrow> c_int \<Rightarrow> string \<Rightarrow> MySQLPreparedStatement \<Rightarrow> (unit, MySQLPreparedStatement) ret" where
  "prepare_string sql native_ret native_error this =
     prepare sql (of_nat (length sql)) native_ret native_error this"

text \<open>\<open>addParameter(enum enum_field_types, const void*, std::size_t)\<close>\<close>

definition addParameter ::
  "enum_field_types \<Rightarrow> ptr \<Rightarrow> size_t \<Rightarrow> MySQLPreparedStatement \<Rightarrow> MySQLPreparedStatement" where
  "addParameter bufferType buf bufferLength this =
     (let parameter = memset_zero;
          parameter = parameter\<lparr>buffer_type := bufferType\<rparr>;
          parameter = parameter\<lparr>buffer := buf\<rparr>;
          parameter = parameter\<lparr>buffer_length := ucast bufferLength\<rparr>
      in this\<lparr>m_parameters := m_parameters this @ [parameter]\<rparr>)"

text \<open>
  The typed overloads. A reference argument is the address of the referenced value;
  \<^verbatim>\<open>sizeof\<close> is 1, 2, 4, 8, 4, 8 for char, short, int, long long, float, double.
\<close>

definition addParameter_blob :: "ptr \<Rightarrow> unsigned_long \<Rightarrow> MySQLPreparedStatement \<Rightarrow> MySQLPreparedStatement" where
  "addParameter_blob buf bufferLength this = addParameter MYSQL_TYPE_BLOB buf (ucast bufferLength) this"

definition addParameter_char :: "ptr \<Rightarrow> MySQLPreparedStatement \<Rightarrow> MySQLPreparedStatement" where
  "addParameter_char value_addr this = addParameter MYSQL_TYPE_TINY value_addr 1 this"

definition addParameter_short :: "ptr \<Rightarrow> MySQLPreparedStatement \<Rightarrow> MySQLPreparedStatement" where
  "addParameter_short value_addr this = addParameter MYSQL_TYPE_SHORT value_addr 2 this"

definition addParameter_int :: "ptr \<Rightarrow> MySQLPreparedStatement \<Rightarrow> MySQLPreparedStatement" where
  "addParameter_int value_addr this = addParameter MYSQL_TYPE_LONG value_addr 4 this"

definition addParameter_long_long :: "ptr \<Rightarrow> MySQLPreparedStatement \<Rightarrow> MySQLPreparedStatement" where
  "addParameter_long_long value_addr this = addParameter MYSQL_TYPE_LONGLONG value_addr 8 this"

definition addParameter_float :: "ptr \<Rightarrow> MySQLPreparedStatement \<Rightarrow> MySQLPreparedStatement" where
  "addParameter_float value_addr this = addParameter MYSQL_TYPE_FLOAT value_addr 4 this"

definition addParameter_double :: "ptr \<Rightarrow> MySQLPreparedStatement \<Rightarrow> MySQLPreparedStatement" where
  "addParameter_double value_addr this = addParameter MYSQL_TYPE_FLOAT value_addr 8 this"

definition addParameter_string :: "ptr \<Rightarrow> size_t \<Rightarrow> MySQLPreparedStatement \<Rightarrow> MySQLPreparedStatement" where
  "addParameter_string value_addr sz this = addParameter MYSQL_TYPE_STRING value_addr sz this"

text \<open>\<open>setParameterLength\<close>: \<^verbatim>\<open>m_parameters.at(index)\<close> throws when the index is out of range.\<close>

definition setParameterLength ::
  "size_t \<Rightarrow> size_t \<Rightarrow> MySQLPreparedStatement \<Rightarrow> (unit, MySQLPreparedStatement) ret" where
  "setParameterLength index len this =
     (if unat index < length (m_parameters this)
      then \<lparr>calls = [], outcome = Inr (),
            after = this\<lparr>m_parameters := (m_parameters this)
                      [unat index := (m_parameters this ! unat index)\<lparr>buffer_length := ucast len\<rparr>]\<rparr>\<rparr>
      else \<lparr>calls = [], outcome = Inl Out_of_range, after = this\<rparr>)"

text \<open>
  \<open>bindParameters\<close>; \<open>native_ret\<close> is what \<^verbatim>\<open>mysql_stmt_bind_param\<close> returns (a
  \<^verbatim>\<open>my_bool\<close>, converted to \<^verbatim>\<open>int\<close> by the assignment).
\<close>

definition bindParameters ::
  "my_bool \<Rightarrow> string \<Rightarrow> MySQLPreparedStatement \<Rightarrow> (unit, MySQLPreparedStatement) ret" where
  "bindParameters native_ret native_error this =
     (if m_parameters this = []
      then \<lparr>calls = [], outcome = Inl (Logic_error ''there are no parameters''), after = this\<rparr>
      else let this1 = this\<lparr>m_errorCode := scast native_ret\<rparr>
           in if m_errorCode this1 \<noteq> 0
              then \<lparr>calls = [Mysql_stmt_bind_param (m_stmt this) (m_parameters this),
                              Mysql_stmt_error (m_stmt this)],
                    outcome = Inl (Runtime_error
                                (''failed to bind parameters prepared statement: '' @ native_error)),
                    after = this1\<rparr>
              else \<lparr>calls = [Mysql_stmt_bind_param (m_stmt this) (m_parameters this)],
                    outcome = Inr (),
                    after = this1\<rparr>)"

text \<open>\<open>addResult(enum enum_field_types, void*, std::size_t)\<close> and its typed overloads\<close>

definition addResult ::
  "enum_field_types \<Rightarrow> ptr \<Rightarrow> size_t \<Rightarrow> MySQLPreparedStatement \<Rightarrow> MySQLPreparedStatement" where
  "addResult bufferType buf bufferLength this =
     (let parameter = memset_zero;
          parameter = parameter\<lparr>buffer_type := bufferType\<rparr>;
          parameter = parameter\<lparr>buffer := buf\<rparr>;
          parameter = parameter\<lparr>buffer_length := ucast bufferLength\<rparr>
      in this\<lparr>m_results := m_results this @ [parameter]\<rparr>)"

definition addResult_blob :: "ptr \<Rightarrow> size_t \<Rightarrow> MySQLPreparedStatement \<Rightarrow> MySQLPreparedStatement" where
  "addResult_blob buf bufferLength this = addResult MYSQL_TYPE_BLOB buf bufferLength this"

definition addResult_char :: "ptr \<Rightarrow> MySQLPreparedStatement \<Rightarrow> MySQLPreparedStatement" where
  "addResult_char value_addr this = addResult MYSQL_TYPE_TINY value_addr 1 this"

definition addResult_short :: "ptr \<Rightarrow> MySQLPreparedStatement \<Rightarrow> MySQLPreparedStatement" where
  "addResult_short value_addr this = addResult MYSQL_TYPE_SHORT value_addr 2 this"

definition addResult_int :: "ptr \<Rightarrow> MySQLPreparedStatement \<Rightarrow> MySQLPreparedStatement" where
  "addResult_int value_addr this = addResult MYSQL_TYPE_LONG value_addr 4 this"

definition addResult_long_long :: "ptr \<Rightarrow> MySQLPreparedStatement \<Rightarrow> MySQLPreparedStatement" where
  "addResult_long_long value_addr this = addResult MYSQL_TYPE_LONGLONG value_addr 8 this"

definition addResult_float :: "ptr \<Rightarrow> MySQLPreparedStatement \<Rightarrow> MySQLPreparedStatement" where
  "addResult_float value_addr this = addResult MYSQL_TYPE_FLOAT value_addr 4 this"

definition addResult_double :: "ptr \<Rightarrow> MySQLPreparedStatement \<Rightarrow> MySQLPreparedStatement" where
  "addResult_double value_addr this = addResult MYSQL_TYPE_DOUBLE value_addr 8 this"

definition addResult_string :: "ptr \<Rightarrow> size_t \<Rightarrow> MySQLPreparedStatement \<Rightarrow> MySQLPreparedStatement" where
  "addResult_string value_addr sz this = addResult MYSQL_TYPE_STRING value_addr sz this"

text \<open>\<open>bindResults\<close>; \<open>native_ret\<close> is what \<^verbatim>\<open>mysql_stmt_bind_result\<close> returns.\<close>

definition bindResults ::
  "my_bool \<Rightarrow> string \<Rightarrow> MySQLPreparedStatement \<Rightarrow> (unit, MySQLPreparedStatement) ret" where
  "bindResults native_ret native_error this =
     (if m_results this = []
      then \<lparr>calls = [], outcome = Inl (Logic_error ''there are no results''), after = this\<rparr>
      else let this1 = this\<lparr>m_errorCode := scast native_ret\<rparr>
           in if m_errorCode this1 \<noteq> 0
              then \<lparr>calls = [Mysql_stmt_bind_result (m_stmt this) (m_results this),
                              Mysql_stmt_error (m_stmt this)],
                    outcome = Inl (Runtime_error
                                (''failed to bind results prepared statement: '' @ native_error)),
                    after = this1\<rparr>
              else \<lparr>calls = [Mysql_stmt_bind_result (m_stmt this) (m_results this)],
                    outcome = Inr (),
                    after = this1\<rparr>)"

text \<open>\<open>execute\<close>; \<open>native_ret\<close> is what \<^verbatim>\<open>mysql_stmt_execute\<close> returns.\<close>

definition execute ::
  "c_int \<Rightarrow> string \<Rightarrow> MySQLPreparedStatement \<Rightarrow> (unit, MySQLPreparedStatement) ret" where
  "execute native_ret native_error this =
     (let this1 = this\<lparr>m_errorCode := native_ret\<rparr>
      in if m_errorCode this1 \<noteq> 0
         then \<lparr>calls = [Mysql_stmt_execute (m_stmt this), Mysql_stmt_error (m_stmt this)],
               outcome = Inl (Runtime_error
                                (''failed to execute prepared statement: '' @ native_error)),
               after = this1\<rparr>
         else \<lparr>calls = [Mysql_stmt_execute (m_stmt this)],
               outcome = Inr (),
               after = this1\<rparr>)"

text \<open>
  \<open>fetch\<close>; \<open>res\<close> is what \<^verbatim>\<open>mysql_stmt_fetch\<close> returns. The macro \<^verbatim>\<open>MYSQL_NO_DATA\<close>
  comes from the client library's header and is the parameter \<open>no_data\<close>; the cases of
  the \<^verbatim>\<open>switch\<close> are tried in the order they are written.
\<close>

definition fetch ::
  "c_int \<Rightarrow> c_int \<Rightarrow> MySQLPreparedStatement \<Rightarrow> (bool, MySQLPreparedStatement) ret" where
  "fetch no_data res this =
     \<lparr>calls = [Mysql_stmt_fetch (m_stmt this)],
      outcome = (if res = 0 then Inr True
                 else if res = no_data then Inr False
                 else Inl (Runtime_error ''failed to fetch data'')),
      after = this\<rparr>"

text \<open>\<open>stop\<close>; \<open>native_ret\<close> is what \<^verbatim>\<open>mysql_stmt_free_result\<close> returns.\<close>

definition stop :: "my_bool \<Rightarrow> MySQLPreparedStatement \<Rightarrow> (unit, MySQLPreparedStatement) ret" where
  "stop native_ret this =
     \<lparr>calls = [Mysql_stmt_free_result (m_stmt this)],
      outcome = (if native_ret \<noteq> 0
                 then Inl (Runtime_error ''failed to stop prepared statement'')
                 else Inr ()),
      after = this\<rparr>"

section \<open>Shared ownership\<close>

text \<open>
  The three wrappers are only ever reached through \<^verbatim>\<open>std::shared_ptr\<close> (their constructors
  are private, copying and moving are deleted). A wrapper object is identified by the number
  of its allocation. Each object lives in a control block that counts the owning references
  to it; an object whose count has dropped to 0 has been destroyed, and its control block is
  kept so that the history of the object stays visible.
\<close>

datatype wrapper = Library addr | Connection addr | Statement addr

record 'o control_block =
  managed :: 'o
  use_count :: nat

text \<open>
  The process: the wrapper objects, the static \<^verbatim>\<open>std::weak_ptr\<close> member
  \<^verbatim>\<open>MySQLClientLibrary::m_instance\<close>, the non-empty shared pointers the client code owns
  at the moment, the allocation counter, and the native calls made so far, each with the
  wrapper object that made it.
\<close>

record process =
  libraries :: "addr \<rightharpoonup> MySQLClientLibrary control_block"
  connections :: "addr \<rightharpoonup> MySQLConnection control_block"
  statements :: "addr \<rightharpoonup> MySQLPreparedStatement control_block"
  m_instance :: "addr option"
  held :: "wrapper list"
  next_addr :: addr
  trace :: "(wrapper \<times> native_call) list"

definition init_process :: process where
  "init_process = \<lparr>libraries = Map.empty, connections = Map.empty, statements = Map.empty,
     m_instance = None, held = [], next_addr = 0, trace = []\<rparr>"

definition emit :: "wrapper \<Rightarrow> native_call list \<Rightarrow> process \<Rightarrow> process" where
  "emit w cs p = p\<lparr>trace := trace p @ map (Pair w) cs\<rparr>"

text \<open>Copying a shared pointer adds one owning reference.\<close>

definition incr_library :: "addr \<Rightarrow> process \<Rightarrow> process" where
  "incr_library l p =
     (case libraries p l of
        None \<Rightarrow> p
      | Some cb \<Rightarrow> p\<lparr>libraries := (libraries p)(l \<mapsto> cb\<lparr>use_count := Suc (use_count cb)\<rparr>)\<rparr>)"

definition incr_connection :: "addr \<Rightarrow> process \<Rightarrow> process" where
  "incr_connection c p =
     (case connections p c of
        None \<Rightarrow> p
      | Some cb \<Rightarrow> p\<lparr>connections := (connections p)(c \<mapsto> cb\<lparr>use_count := Suc (use_count cb)\<rparr>)\<rparr>)"

definition incr_statement :: "addr \<Rightarrow> process \<Rightarrow> process" where
  "incr_statement s p =
     (case statements p s of
        None \<Rightarrow> p
      | Some cb \<Rightarrow> p\<lparr>statements := (statements p)(s \<mapsto> cb\<lparr>use_count := Suc (use_count cb)\<rparr>)\<rparr>)"

text \<open>
  Destroying a shared pointer removes one owning reference. The one that takes the count
  from 1 to 0 destroys the object: the destructor body runs, then the members are destroyed,
  among them the shared pointer to the object this one depends on.
\<close>

definition release_library :: "addr \<Rightarrow> process \<Rightarrow> process" where
  "release_library l p =
     (case libraries p l of
        None \<Rightarrow> p
      | Some cb \<Rightarrow>
          if use_count cb = 1
          then emit (Library l) (MySQLClientLibrary_dtor (managed cb))
                 (p\<lparr>libraries := (libraries p)(l \<mapsto> cb\<lparr>use_count := 0\<rparr>)\<rparr>)
          else p\<lparr>libraries := (libraries p)(l \<mapsto> cb\<lparr>use_count := use_count cb - 1\<rparr>)\<rparr>)"

definition release_connection :: "addr \<Rightarrow> process \<Rightarrow> process" where
  "release_connection c p =
     (case connections p c of
        None \<Rightarrow> p
      | Some cb \<Rightarrow>
          if use_count cb = 1
          then let p1 = emit (Connection c) (MySQLConnection_dtor (managed cb))
                          (p\<lparr>connections := (connections p)(c \<mapsto> cb\<lparr>use_count := 0\<rparr>)\<rparr>)
               in (case m_library (managed cb) of
                     None \<Rightarrow> p1
                   | Some l \<Rightarrow> release_library l p1)
          else p\<lparr>connections := (connections p)(c \<mapsto> cb\<lparr>use_count := use_count cb - 1\<rparr>)\<rparr>)"

definition release_statement :: "addr \<Rightarrow> process \<Rightarrow> process" where
  "release_statement s p =
     (case statements p s of
        None \<Rightarrow> p
      | Some cb \<Rightarrow>
          if use_count cb = 1
          then let p1 = emit (Statement s) (MySQLPreparedStatement_dtor (managed cb))
                          (p\<lparr>statements := (statements p)(s \<mapsto> cb\<lparr>use_count := 0\<rparr>)\<rparr>)
               in release_connection (m_conn (managed cb)) p1
          else p\<lparr>statements := (statements p)(s \<mapsto> cb\<lparr>use_count := use_count cb - 1\<rparr>)\<rparr>)"

fun incr :: "wrapper \<Rightarrow> process \<Rightarrow> process" where
  "incr (Library l) p = incr_library l p"
| "incr (Connection c) p = incr_connection c p"
| "incr (Statement s) p = incr_statement s p"

fun release :: "wrapper \<Rightarrow> process \<Rightarrow> process" where
  "release (Library l) p = release_library l p"
| "release (Connection c) p = release_connection c p"
| "release (Statement s) p = release_statement s p"

text \<open>\<^verbatim>\<open>m_instance.lock()\<close>: the instance, when it has not been destroyed.\<close>

definition lock :: "process \<Rightarrow> addr option" where
  "lock p =
     (case m_instance p of
        None \<Rightarrow> None
      | Some a \<Rightarrow>
          (case libraries p a of
             None \<Rightarrow> None
           | Some cb \<Rightarrow> if 0 < use_count cb then Some a else None))"

text \<open>
  \<open>createOrGet\<close>; \<open>init_ret\<close> is what \<^verbatim>\<open>mysql_library_init\<close> returns when it is called.
  The shared pointer returned is one owning reference.
\<close>

definition createOrGet ::
  "c_int \<Rightarrow> ptr \<Rightarrow> ptr \<Rightarrow> c_int \<Rightarrow> process \<Rightarrow> (exn + addr) \<times> process" where
  "createOrGet argc argv groups init_ret p =
     (case lock p of
        Some a \<Rightarrow> (Inr a, incr_library a p)
      | None \<Rightarrow>
          let a = next_addr p;
              r = MySQLClientLibrary_ctor argc argv groups init_ret;
              p1 = emit (Library a) (calls r) (p\<lparr>next_addr := Suc a\<rparr>)
          in (case outcome r of
                Inl e \<Rightarrow> (Inl e, p1)
              | Inr this \<Rightarrow>
                  (Inr a, p1\<lparr>libraries := (libraries p1)(a \<mapsto> \<lparr>managed = this, use_count = 1\<rparr>),
                             m_instance := Some a\<rparr>)))"

text \<open>
  \<open>MySQLConnection::create\<close>. The member \<open>m_library\<close> is a copy of the argument; when the
  constructor throws, the members already built are destroyed.
\<close>

definition MySQLConnection_create ::
  "addr option \<Rightarrow> ptr \<Rightarrow> process \<Rightarrow> (exn + addr) \<times> process" where
  "MySQLConnection_create library init_ret p =
     (let a = next_addr p;
          r = MySQLConnection_ctor library init_ret;
          p1 = (case library of None \<Rightarrow> p | Some l \<Rightarrow> incr_library l p);
          p2 = emit (Connection a) (calls r) (p1\<lparr>next_addr := Suc a\<rparr>)
      in (case outcome r of
            Inl e \<Rightarrow> (Inl e, (case library of None \<Rightarrow> p2 | Some l \<Rightarrow> release_library l p2))
          | Inr this \<Rightarrow>
              (Inr a, p2\<lparr>connections := (connections p2)(a \<mapsto> \<lparr>managed = this, use_count = 1\<rparr>)\<rparr>)))"

text \<open>
  \<open>MySQLPreparedStatement::create\<close>. The constructor dereferences \<open>conn\<close>; \<open>None\<close> stands
  for a pointer that owns no connection, which has no defined behaviour in the source.
\<close>

definition MySQLPreparedStatement_create ::
  "addr \<Rightarrow> ptr \<Rightarrow> process \<Rightarrow> ((exn + addr) \<times> process) option" where
  "MySQLPreparedStatement_create conn init_ret p =
     (case connections p conn of
        None \<Rightarrow> None
      | Some cbc \<Rightarrow>
          let a = next_addr p;
              r = MySQLPreparedStatement_ctor conn (m_mysql (managed cbc)) init_ret;
              p1 = incr_connection conn p;
              p2 = emit (Statement a) (calls r) (p1\<lparr>next_addr := Suc a\<rparr>)
          in Some (case outcome r of
                     Inl e \<Rightarrow> (Inl e, release_connection conn p2)
                   | Inr this \<Rightarrow>
                       (Inr a, p2\<lparr>statements :=
                                    (statements p2)(a \<mapsto> \<lparr>managed = this, use_count = 1\<rparr>)\<rparr>)))"

text \<open>Member functions called through a shared pointer.\<close>

datatype connection_op =
    Connect string c_unsigned string string "string option" unsigned_long ptr
  | SetAutoCommit bool my_bool
  | GetServerVersion unsigned_long

fun connection_effect :: "connection_op \<Rightarrow> MySQLConnection \<Rightarrow> native_call list \<times> MySQLConnection" where
  "connection_effect (Connect host port database user password clientFlags r) this =
     (let x = connect host port database user password clientFlags r this in (calls x, after x))"
| "connection_effect (SetAutoCommit autoCommit r) this =
     (let x = setAutoCommit autoCommit r this in (calls x, after x))"
| "connection_effect (GetServerVersion r) this =
     (let x = getServerVersion r this in (calls x, after x))"

datatype statement_op =
    Prepare string size_t c_int string
  | PrepareString string c_int string
  | AddParameter enum_field_types ptr size_t
  | AddParameterBlob ptr unsigned_long
  | AddParameterChar ptr
  | AddParameterShort ptr
  | AddParameterInt ptr
  | AddParameterLongLong ptr
  | AddParameterFloat ptr
  | AddParameterDouble ptr
  | AddParameterString ptr size_t
  | SetParameterLength size_t size_t
  | BindParameters my_bool string
  | AddResult enum_field_types ptr size_t
  | AddResultBlob ptr size_t
  | AddResultChar ptr
  | AddResultShort ptr
  | AddResultInt ptr
  | AddResultLongLong ptr
  | AddResultFloat ptr
  | AddResultDouble ptr
  | AddResultString ptr size_t
  | BindResults my_bool string
  | Execute c_int string
  | Fetch c_int c_int
  | Stop my_bool

fun statement_effect ::
  "statement_op \<Rightarrow> MySQLPreparedStatement \<Rightarrow> native_call list \<times> MySQLPreparedStatement" where
  "statement_effect (Prepare sql len r e) this = (let x = prepare sql len r e this in (calls x, after x))"
| "statement_effect (PrepareString sql r e) this = (let x = prepare_string sql r e this in (calls x, after x))"
| "statement_effect (AddParameter t b l) this = ([], addParameter t b l this)"
| "statement_effect (AddParameterBlob b l) this = ([], addParameter_blob b l this)"
| "statement_effect (AddParameterChar v) this = ([], addParameter_char v this)"
| "statement_effect (AddParameterShort v) this = ([], addParameter_short v this)"
| "statement_effect (AddParameterInt v) this = ([], addParameter_int v this)"
| "statement_effect (AddParameterLongLong v) this = ([], addParameter_long_long v this)"
| "statement_effect (AddParameterFloat v) this = ([], addParameter_float v this)"
| "statement_effect (AddParameterDouble v) this = ([], addParameter_double v this)"
| "statement_effect (AddParameterString v l) this = ([], addParameter_string v l this)"
| "statement_effect (SetParameterLength i l) this = (let x = setParameterLength i l this in (calls x, after x))"
| "statement_effect (BindParameters r e) this = (let x = bindParameters r e this in (calls x, after x))"
| "statement_effect (AddResult t b l) this = ([], addResult t b l this)"
| "statement_effect (AddResultBlob b l) this = ([], addResult_blob b l this)"
| "statement_effect (AddResultChar v) this = ([], addResult_char v this)"
| "statement_effect (AddResultShort v) this = ([], addResult_short v this)"
| "statement_effect (AddResultInt v) this = ([], addResult_int v this)"
| "statement_effect (AddResultLongLong v) this = ([], addResult_long_long v this)"
| "statement_effect (AddResultFloat v) this = ([], addResult_float v this)"
| "statement_effect (AddResultDouble v) this = ([], addResult_double v this)"
| "statement_effect (AddResultString v l) this = ([], addResult_string v l this)"
| "statement_effect (BindResults r e) this = (let x = bindResults r e this in (calls x, after x))"
| "statement_effect (Execute r e) this = (let x = execute r e this in (calls x, after x))"
| "statement_effect (Fetch no_data r) this = (let x = fetch no_data r this in (calls x, after x))"
| "statement_effect (Stop r) this = (let x = stop r this in (calls x, after x))"

definition on_connection :: "addr \<Rightarrow> connection_op \<Rightarrow> process \<Rightarrow> process" where
  "on_connection c op p =
     (case connections p c of
        None \<Rightarrow> p
      | Some cb \<Rightarrow>
          let (cs, this) = connection_effect op (managed cb)
          in emit (Connection c) cs (p\<lparr>connections := (connections p)(c \<mapsto> cb\<lparr>managed := this\<rparr>)\<rparr>))"

definition on_statement :: "addr \<Rightarrow> statement_op \<Rightarrow> process \<Rightarrow> process" where
  "on_statement s op p =
     (case statements p s of
        None \<Rightarrow> p
      | Some cb \<Rightarrow>
          let (cs, this) = statement_effect op (managed cb)
          in emit (Statement s) cs (p\<lparr>statements := (statements p)(s \<mapsto> cb\<lparr>managed := this\<rparr>)\<rparr>))"

text \<open>
  What client code can do with the wrappers. A shared pointer is named by its position in
  \<open>held\<close>; the values the native library returns come with the event. An event that names
  no pointer, or a pointer of the wrong class, is not a program and changes nothing.
\<close>

datatype event =
    CreateOrGet c_int ptr ptr c_int
  | CreateConnection "nat option" ptr
  | CreateStatement nat ptr
  | Copy nat
  | Release nat
  | OnConnection nat connection_op
  | OnStatement nat statement_op

definition receive :: "wrapper \<Rightarrow> process \<Rightarrow> process" where
  "receive w p = p\<lparr>held := held p @ [w]\<rparr>"

definition drop_held :: "nat \<Rightarrow> process \<Rightarrow> process" where
  "drop_held i p = p\<lparr>held := take i (held p) @ drop (Suc i) (held p)\<rparr>"

fun step :: "process \<Rightarrow> event \<Rightarrow> process" where
  "step p (CreateOrGet argc argv groups r) =
     (case createOrGet argc argv groups r p of
        (Inl e, p') \<Rightarrow> p'
      | (Inr a, p') \<Rightarrow> receive (Library a) p')"
| "step p (CreateConnection None r) =
     (case MySQLConnection_create None r p of
        (Inl e, p') \<Rightarrow> p'
      | (Inr a, p') \<Rightarrow> receive (Connection a) p')"
| "step p (CreateConnection (Some i) r) =
     (if i < length (held p)
      then (case held p ! i of
              Library l \<Rightarrow>
                (case MySQLConnection_create (Some l) r p of
                   (Inl e, p') \<Rightarrow> p'
                 | (Inr a, p') \<Rightarrow> receive (Connection a) p')
            | _ \<Rightarrow> p)
      else p)"
| "step p (CreateStatement i r) =
     (if i < length (held p)
      then (case held p ! i of
              Connection c \<Rightarrow>
                (case MySQLPreparedStatement_create c r p of
                   None \<Rightarrow> p
                 | Some (Inl e, p') \<Rightarrow> p'
                 | Some (Inr a, p') \<Rightarrow> receive (Statement a) p')
            | _ \<Rightarrow> p)
      else p)"
| "step p (Copy i) =
     (if i < length (held p) then receive (held p ! i) (incr (held p ! i) p) else p)"
| "step p (Release i) =
     (if i < length (held p) then release (held p ! i) (drop_held i p) else p)"
| "step p (OnConnection i op) =
     (if i < length (held p)
      then (case held p ! i of Connection c \<Rightarrow> on_connection c op p | _ \<Rightarrow> p)
      else p)"
| "step p (OnStatement i op) =
     (if i < length (held p)
      then (case held p ! i of Statement s \<Rightarrow> on_statement s op p | _ \<Rightarrow> p)
      else p)"

definition run :: "event list \<Rightarrow> process" where
  "run es = foldl step init_process es"

section \<open>Vocabulary of the properties\<close>

text \<open>
  A reported failure carries a text when the text occurs in the message of the runtime
  error thrown.
\<close>

definition carries_native_text :: "exn + 'r \<Rightarrow> string \<Rightarrow> bool" where
  "carries_native_text out etext =
     (case out of Inl (Runtime_error msg) \<Rightarrow> sublist etext msg | _ \<Rightarrow> False)"

text \<open>The descriptor with the given tag, pointer and length, every other member zero.\<close>

definition descriptor :: "enum_field_types \<Rightarrow> ptr \<Rightarrow> unsigned_long \<Rightarrow> MYSQL_BIND" where
  "descriptor t b l = \<lparr>buffer_type = t, buffer = b, buffer_length = l,
     length_ptr = 0, is_null = 0, is_unsigned = 0, error_ptr = 0\<rparr>"

text \<open>A sequence of registration calls, and the descriptors each kind asks for, in call order.\<close>

datatype registration =
    Parameter enum_field_types ptr size_t
  | Result enum_field_types ptr size_t

fun register :: "MySQLPreparedStatement \<Rightarrow> registration \<Rightarrow> MySQLPreparedStatement" where
  "register this (Parameter t b l) = addParameter t b l this"
| "register this (Result t b l) = addResult t b l this"

fun parameters_of :: "registration list \<Rightarrow> MYSQL_BIND list" where
  "parameters_of [] = []"
| "parameters_of (Parameter t b l # rs) = descriptor t b l # parameters_of rs"
| "parameters_of (Result t b l # rs) = parameters_of rs"

fun results_of :: "registration list \<Rightarrow> MYSQL_BIND list" where
  "results_of [] = []"
| "results_of (Parameter t b l # rs) = results_of rs"
| "results_of (Result t b l # rs) = descriptor t b l # results_of rs"

text \<open>A statement and a connection as their constructors leave them, for concrete runs.\<close>

definition stmt0 :: MySQLPreparedStatement where
  "stmt0 = \<lparr>m_conn = 0, m_stmt = 1, m_parameters = [], m_results = [], m_errorCode = 0\<rparr>"

definition conn0 :: MySQLConnection where
  "conn0 = \<lparr>m_library = None, m_mysql = 1\<rparr>"

section \<open>Vocabulary of the ownership properties\<close>

text \<open>What the wrapper objects of a process are, read uniformly.\<close>

fun use_count_of :: "process \<Rightarrow> wrapper \<Rightarrow> nat option" where
  "use_count_of p (Library l) = map_option use_count (libraries p l)"
| "use_count_of p (Connection c) = map_option use_count (connections p c)"
| "use_count_of p (Statement s) = map_option use_count (statements p s)"



definition alive :: "process \<Rightarrow> wrapper \<Rightarrow> bool" where
  "alive p w = (case use_count_of p w of None \<Rightarrow> False | Some n \<Rightarrow> 0 < n)"


fun is_release :: "native_call \<Rightarrow> bool" where
  "is_release Mysql_library_end = True"
| "is_release (Mysql_close h) = True"
| "is_release (Mysql_stmt_close h) = True"
| "is_release c = False"

text \<open>The release calls a wrapper object has made, and the order of two calls in a trace.\<close>

definition releases :: "wrapper \<Rightarrow> (wrapper \<times> native_call) list \<Rightarrow> (wrapper \<times> native_call) list" where
  "releases w tr = filter (\<lambda>e. fst e = w \<and> is_release (snd e)) tr"

definition released_before ::
  "wrapper \<times> native_call \<Rightarrow> wrapper \<times> native_call \<Rightarrow> (wrapper \<times> native_call) list \<Rightarrow> bool" where
  "released_before x y tr = (x \<in> set (takeWhile (\<lambda>e. e \<noteq> y) tr))"

text \<open>
  The invariants of a process. \<open>H\<close> is the multiset of shared pointers held outside the
  wrapper objects. The live holders of an object are the live objects whose member points
  to it; a use count is the number of outside pointers plus the number of live holders.
\<close>

definition holders :: "(addr \<rightharpoonup> 'o control_block) \<Rightarrow> ('o \<Rightarrow> addr option) \<Rightarrow> addr \<Rightarrow> addr set" where
  "holders m dep t = {a. \<exists>cb. m a = Some cb \<and> 0 < use_count cb \<and> dep (managed cb) = Some t}"

definition conn_of :: "MySQLPreparedStatement \<Rightarrow> addr option" where
  "conn_of this = Some (m_conn this)"

definition bounds_ok :: "wrapper multiset \<Rightarrow> process \<Rightarrow> bool" where
  "bounds_ok H p \<longleftrightarrow>
     finite (dom (connections p)) \<and> finite (dom (statements p))
     \<and> (\<forall>a \<in> dom (libraries p). a < next_addr p)
     \<and> (\<forall>a \<in> dom (connections p). a < next_addr p)
     \<and> (\<forall>a \<in> dom (statements p). a < next_addr p)
     \<and> (\<forall>l. Library l \<in># H \<longrightarrow> l \<in> dom (libraries p))
     \<and> (\<forall>c. Connection c \<in># H \<longrightarrow> c \<in> dom (connections p))
     \<and> (\<forall>s. Statement s \<in># H \<longrightarrow> s \<in> dom (statements p))
     \<and> (\<forall>c cb l. connections p c = Some cb \<longrightarrow> m_library (managed cb) = Some l \<longrightarrow>
            l \<in> dom (libraries p))
     \<and> (\<forall>s cb. statements p s = Some cb \<longrightarrow> m_conn (managed cb) \<in> dom (connections p))"

definition counts_ok :: "wrapper multiset \<Rightarrow> process \<Rightarrow> bool" where
  "counts_ok H p \<longleftrightarrow>
     (\<forall>l cb. libraries p l = Some cb \<longrightarrow>
        use_count cb = count H (Library l) + card (holders (connections p) m_library l))
     \<and> (\<forall>c cb. connections p c = Some cb \<longrightarrow>
        use_count cb = count H (Connection c) + card (holders (statements p) conn_of c))
     \<and> (\<forall>s cb. statements p s = Some cb \<longrightarrow> use_count cb = count H (Statement s))"

definition trace_ok :: "process \<Rightarrow> bool" where
  "trace_ok p \<longleftrightarrow>
     (\<forall>l cb. libraries p l = Some cb \<longrightarrow> lib_errorCode (managed cb) = 0)
     \<and> (\<forall>c cb. connections p c = Some cb \<longrightarrow> m_mysql (managed cb) \<noteq> 0)
     \<and> (\<forall>s cb. statements p s = Some cb \<longrightarrow> m_stmt (managed cb) \<noteq> 0)
     \<and> (\<forall>l. releases (Library l) (trace p) =
            (case libraries p l of
               None \<Rightarrow> []
             | Some cb \<Rightarrow> if use_count cb = 0 then [(Library l, Mysql_library_end)] else []))
     \<and> (\<forall>c. releases (Connection c) (trace p) =
            (case connections p c of
               None \<Rightarrow> []
             | Some cb \<Rightarrow> if use_count cb = 0
                          then [(Connection c, Mysql_close (m_mysql (managed cb)))] else []))
     \<and> (\<forall>s. releases (Statement s) (trace p) =
            (case statements p s of
               None \<Rightarrow> []
             | Some cb \<Rightarrow> if use_count cb = 0
                          then [(Statement s, Mysql_stmt_close (m_stmt (managed cb)))] else []))"

definition order_ok :: "process \<Rightarrow> bool" where
  "order_ok p \<longleftrightarrow>
     (\<forall>s cb cbc. statements p s = Some cb \<longrightarrow> connections p (m_conn (managed cb)) = Some cbc \<longrightarrow>
        use_count cbc = 0 \<longrightarrow>
        released_before (Statement s, Mysql_stmt_close (m_stmt (managed cb)))
          (Connection (m_conn (managed cb)), Mysql_close (m_mysql (managed cbc))) (trace p))
     \<and> (\<forall>c cb l cbl. connections p c = Some cb \<longrightarrow> m_library (managed cb) = Some l \<longrightarrow>
        libraries p l = Some cbl \<longrightarrow> use_count cbl = 0 \<longrightarrow>
        released_before (Connection c, Mysql_close (m_mysql (managed cb)))
          (Library l, Mysql_library_end) (trace p))"

definition single_ok :: "process \<Rightarrow> bool" where
  "single_ok p \<longleftrightarrow>
     (\<forall>l cb. libraries p l = Some cb \<longrightarrow> 0 < use_count cb \<longrightarrow> m_instance p = Some l)"

definition invar :: "wrapper multiset \<Rightarrow> process \<Rightarrow> bool" where
  "invar H p \<longleftrightarrow> bounds_ok H p \<and> counts_ok H p \<and> trace_ok p \<and> order_ok p \<and> single_ok p"

text \<open>An allocation number that was used but is not a library object.\<close>

definition not_library :: "addr \<Rightarrow> process \<Rightarrow> bool" where
  "not_library a p \<longleftrightarrow> a < next_addr p \<and> libraries p a = None"


section \<open>Properties of the member functions\<close>

lemma addParameter_eq:
  "addParameter t b l this = this\<lparr>m_parameters := m_parameters this @ [descriptor t b l]\<rparr>"
  by (simp add: addParameter_def memset_zero_def descriptor_def)

lemma addResult_eq:
  "addResult t b l this = this\<lparr>m_results := m_results this @ [descriptor t b l]\<rparr>"
  by (simp add: addResult_def memset_zero_def descriptor_def)

lemma my_bool_to_int: "(scast (r :: my_bool) :: c_int) = 0 \<longleftrightarrow> r = 0"
proof
  assume a: "(scast r :: c_int) = 0"
  have "(scast (scast r :: c_int) :: my_bool) = r"
    by (rule scast_up_scast_id) (simp add: is_up)
  with a show "r = 0" by simp
qed simp

lemma carries_suffix:
  "out = Inl (Runtime_error (pre @ etext)) \<Longrightarrow> carries_native_text out etext"
  by (simp add: carries_native_text_def)

lemma prepare_failure:
  "r \<noteq> 0 \<Longrightarrow> prepare sql len r etext this =
     \<lparr>calls = [Mysql_stmt_prepare (m_stmt this) sql (if len = npos then strlen sql else len),
               Mysql_stmt_error (m_stmt this)],
      outcome = Inl (Runtime_error (''failed to prepare prepared statement: '' @ etext)),
      after = this\<lparr>m_errorCode := r\<rparr>\<rparr>"
  by (simp add: prepare_def Let_def)

lemma bindParameters_failure:
  "b \<noteq> 0 \<Longrightarrow> m_parameters this \<noteq> [] \<Longrightarrow> bindParameters b etext this =
     \<lparr>calls = [Mysql_stmt_bind_param (m_stmt this) (m_parameters this),
               Mysql_stmt_error (m_stmt this)],
      outcome = Inl (Runtime_error (''failed to bind parameters prepared statement: '' @ etext)),
      after = this\<lparr>m_errorCode := scast b\<rparr>\<rparr>"
  by (simp add: bindParameters_def Let_def my_bool_to_int)

lemma bindResults_failure:
  "b \<noteq> 0 \<Longrightarrow> m_results this \<noteq> [] \<Longrightarrow> bindResults b etext this =
     \<lparr>calls = [Mysql_stmt_bind_result (m_stmt this) (m_results this),
               Mysql_stmt_error (m_stmt this)],
      outcome = Inl (Runtime_error (''failed to bind results prepared statement: '' @ etext)),
      after = this\<lparr>m_errorCode := scast b\<rparr>\<rparr>"
  by (simp add: bindResults_def Let_def my_bool_to_int)

lemma execute_failure:
  "r \<noteq> 0 \<Longrightarrow> execute r etext this =
     \<lparr>calls = [Mysql_stmt_execute (m_stmt this), Mysql_stmt_error (m_stmt this)],
      outcome = Inl (Runtime_error (''failed to execute prepared statement: '' @ etext)),
      after = this\<lparr>m_errorCode := r\<rparr>\<rparr>"
  by (simp add: execute_def Let_def)

lemma typed_helper_tags:
  "buffer_type (last (m_parameters (addParameter_blob b n this))) = MYSQL_TYPE_BLOB"
  "buffer_type (last (m_parameters (addParameter_char v this))) = MYSQL_TYPE_TINY"
  "buffer_type (last (m_parameters (addParameter_short v this))) = MYSQL_TYPE_SHORT"
  "buffer_type (last (m_parameters (addParameter_int v this))) = MYSQL_TYPE_LONG"
  "buffer_type (last (m_parameters (addParameter_long_long v this))) = MYSQL_TYPE_LONGLONG"
  "buffer_type (last (m_parameters (addParameter_float v this))) = MYSQL_TYPE_FLOAT"
  "buffer_type (last (m_parameters (addParameter_string v n this))) = MYSQL_TYPE_STRING"
  "buffer_type (last (m_results (addResult_blob b n this))) = MYSQL_TYPE_BLOB"
  "buffer_type (last (m_results (addResult_char v this))) = MYSQL_TYPE_TINY"
  "buffer_type (last (m_results (addResult_short v this))) = MYSQL_TYPE_SHORT"
  "buffer_type (last (m_results (addResult_int v this))) = MYSQL_TYPE_LONG"
  "buffer_type (last (m_results (addResult_long_long v this))) = MYSQL_TYPE_LONGLONG"
  "buffer_type (last (m_results (addResult_float v this))) = MYSQL_TYPE_FLOAT"
  "buffer_type (last (m_results (addResult_string v n this))) = MYSQL_TYPE_STRING"
  by (simp_all add: addParameter_blob_def addParameter_char_def addParameter_short_def
      addParameter_int_def addParameter_long_long_def addParameter_float_def
      addParameter_string_def addResult_blob_def addResult_char_def addResult_short_def
      addResult_int_def addResult_long_long_def addResult_float_def addResult_string_def
      addParameter_eq addResult_eq descriptor_def)

text \<open>
  C1. Each typed registration helper should record the tag of its argument type, and
  every helper but one does (\<open>typed_helper_tags\<close>). The overload
  \<open>addParameter(const double&)\<close> records \<open>MYSQL_TYPE_FLOAT\<close>, which is not the tag of the
  native double type, while \<open>addResult(double&)\<close> records \<open>MYSQL_TYPE_DOUBLE\<close>.
\<close>

theorem addParameter_double_tag:
  "buffer_type (last (m_parameters (addParameter_double v this))) = MYSQL_TYPE_FLOAT
   \<and> buffer_type (last (m_parameters (addParameter_double v this))) \<noteq> MYSQL_TYPE_DOUBLE
   \<and> buffer_type (last (m_results (addResult_double v this))) = MYSQL_TYPE_DOUBLE"
  by (simp add: addParameter_double_def addResult_double_def addParameter_eq addResult_eq descriptor_def)

text \<open>
  C2, as stated: every forwarding operation reports a native failure with the native
  library's error text. It fails for \<open>connect\<close>, whose message is fixed and makes no call to
  an error-reporting function, and \<open>fetch\<close> reports no failure at all for the non-zero
  result \<^verbatim>\<open>MYSQL_NO_DATA\<close>.
\<close>

theorem native_error_text_counterexample:
  "outcome (connect ''localhost'' 3306 ''db'' ''user'' None 0 0 conn0)
     = Inl (Runtime_error ''could not connect to database server'')
   \<and> \<not> carries_native_text
         (outcome (connect ''localhost'' 3306 ''db'' ''user'' None 0 0 conn0)) ''Access denied''
   \<and> outcome (fetch 100 100 stmt0) = Inr False"
  by (simp add: connect_def fetch_def carries_native_text_def sublist_code prefix_code)

text \<open>
  C2, amended: \<open>prepare\<close>, \<open>bindParameters\<close> and \<open>bindResults\<close> (with something registered)
  and \<open>execute\<close> throw a runtime error whose message ends with the text obtained from
  \<^verbatim>\<open>mysql_stmt_error\<close>, the last native call they make. \<open>connect\<close>, \<open>setAutoCommit\<close>,
  \<open>stop\<close> and \<open>fetch\<close> throw a runtime error on a failure result, where \<open>fetch\<close> returns
  false without a failure on \<^verbatim>\<open>MYSQL_NO_DATA\<close>.
\<close>

theorem native_error_text:
  "(r \<noteq> 0 \<longrightarrow>
      outcome (prepare sql len r etext this)
        = Inl (Runtime_error (''failed to prepare prepared statement: '' @ etext))
      \<and> carries_native_text (outcome (prepare sql len r etext this)) etext
      \<and> last (calls (prepare sql len r etext this)) = Mysql_stmt_error (m_stmt this))
   \<and> (b \<noteq> 0 \<and> m_parameters this \<noteq> [] \<longrightarrow>
      outcome (bindParameters b etext this)
        = Inl (Runtime_error (''failed to bind parameters prepared statement: '' @ etext))
      \<and> carries_native_text (outcome (bindParameters b etext this)) etext
      \<and> last (calls (bindParameters b etext this)) = Mysql_stmt_error (m_stmt this))
   \<and> (b \<noteq> 0 \<and> m_results this \<noteq> [] \<longrightarrow>
      outcome (bindResults b etext this)
        = Inl (Runtime_error (''failed to bind results prepared statement: '' @ etext))
      \<and> carries_native_text (outcome (bindResults b etext this)) etext
      \<and> last (calls (bindResults b etext this)) = Mysql_stmt_error (m_stmt this))
   \<and> (r \<noteq> 0 \<longrightarrow>
      outcome (execute r etext this)
        = Inl (Runtime_error (''failed to execute prepared statement: '' @ etext))
      \<and> carries_native_text (outcome (execute r etext this)) etext
      \<and> last (calls (execute r etext this)) = Mysql_stmt_error (m_stmt this))
   \<and> (\<exists>msg. outcome (connect host port database user password clientFlags 0 conn)
              = Inl (Runtime_error msg))
   \<and> (b \<noteq> 0 \<longrightarrow> (\<exists>msg. outcome (setAutoCommit autoCommit b conn) = Inl (Runtime_error msg)))
   \<and> (b \<noteq> 0 \<longrightarrow> (\<exists>msg. outcome (stop b this) = Inl (Runtime_error msg)))
   \<and> (r \<noteq> 0 \<and> r \<noteq> no_data \<longrightarrow> (\<exists>msg. outcome (fetch no_data r this) = Inl (Runtime_error msg)))
   \<and> (no_data \<noteq> 0 \<longrightarrow> outcome (fetch no_data no_data this) = Inr False)"
proof -
  have 1: "outcome (prepare sql len r etext this)
        = Inl (Runtime_error (''failed to prepare prepared statement: '' @ etext))
      \<and> carries_native_text (outcome (prepare sql len r etext this)) etext
      \<and> last (calls (prepare sql len r etext this)) = Mysql_stmt_error (m_stmt this)"
    if h1: "r \<noteq> 0"
  proof -
    show ?thesis
      using carries_suffix [of "outcome (prepare sql len r etext this)"
          "''failed to prepare prepared statement: ''" etext]
      by (simp add: prepare_failure [OF h1])
  qed
  have 2: "outcome (bindParameters b etext this)
        = Inl (Runtime_error (''failed to bind parameters prepared statement: '' @ etext))
      \<and> carries_native_text (outcome (bindParameters b etext this)) etext
      \<and> last (calls (bindParameters b etext this)) = Mysql_stmt_error (m_stmt this)"
   
    if h2: "b \<noteq> 0" "m_parameters this \<noteq> []"
  proof -
    show ?thesis
      using carries_suffix [of "outcome (bindParameters b etext this)"
          "''failed to bind parameters prepared statement: ''" etext]
      by (simp add: bindParameters_failure [OF h2])
  qed
  have 3: "outcome (bindResults b etext this)
        = Inl (Runtime_error (''failed to bind results prepared statement: '' @ etext))
      \<and> carries_native_text (outcome (bindResults b etext this)) etext
      \<and> last (calls (bindResults b etext this)) = Mysql_stmt_error (m_stmt this)"
   
    if h3: "b \<noteq> 0" "m_results this \<noteq> []"
  proof -
    show ?thesis
      using carries_suffix [of "outcome (bindResults b etext this)"
          "''failed to bind results prepared statement: ''" etext]
      by (simp add: bindResults_failure [OF h3])
  qed
  have 4: "outcome (execute r etext this)
        = Inl (Runtime_error (''failed to execute prepared statement: '' @ etext))
      \<and> carries_native_text (outcome (execute r etext this)) etext
      \<and> last (calls (execute r etext this)) = Mysql_stmt_error (m_stmt this)"
    if h4: "r \<noteq> 0"
  proof -
    show ?thesis
      using carries_suffix [of "outcome (execute r etext this)"
          "''failed to execute prepared statement: ''" etext]
      by (simp add: execute_failure [OF h4])
  qed
  have 5: "\<exists>msg. outcome (connect host port database user password clientFlags 0 conn)
              = Inl (Runtime_error msg)"
    by (simp add: connect_def)
  have 6: "b \<noteq> 0 \<longrightarrow> (\<exists>msg. outcome (setAutoCommit autoCommit b conn) = Inl (Runtime_error msg))"
    by (simp add: setAutoCommit_def)
  have 7: "b \<noteq> 0 \<longrightarrow> (\<exists>msg. outcome (stop b this) = Inl (Runtime_error msg))"
    by (simp add: stop_def)
  have 8: "r \<noteq> 0 \<and> r \<noteq> no_data \<longrightarrow> (\<exists>msg. outcome (fetch no_data r this) = Inl (Runtime_error msg))"
    by (simp add: fetch_def)
  have 9: "no_data \<noteq> 0 \<longrightarrow> outcome (fetch no_data no_data this) = Inr False"
    by (simp add: fetch_def)
  from 1 2 3 4 5 6 7 8 9 show ?thesis by blast
qed

theorem native_error_text_witness:
  "(1 :: c_int) \<noteq> 0 \<and> (1 :: my_bool) \<noteq> 0 \<and> (1 :: c_int) \<noteq> 100 \<and> (100 :: c_int) \<noteq> 0
   \<and> m_parameters (addParameter_int 8 stmt0) \<noteq> [] \<and> m_results (addParameter_int 8 stmt0) = []
   \<and> outcome (prepare ''SELECT'' npos 1 ''syntax error'' (addParameter_int 8 stmt0))
       = Inl (Runtime_error ''failed to prepare prepared statement: syntax error'')
   \<and> outcome (bindParameters 1 ''bad type'' (addParameter_int 8 stmt0))
       = Inl (Runtime_error ''failed to bind parameters prepared statement: bad type'')
   \<and> outcome (execute 1 ''gone away'' (addParameter_int 8 stmt0))
       = Inl (Runtime_error ''failed to execute prepared statement: gone away'')
   \<and> (\<exists>msg. outcome (stop 1 (addParameter_int 8 stmt0)) = Inl (Runtime_error msg))
   \<and> (\<exists>msg. outcome (fetch 100 1 (addParameter_int 8 stmt0)) = Inl (Runtime_error msg))
   \<and> outcome (fetch 100 100 (addParameter_int 8 stmt0)) = Inr False"
  using native_error_text [of 1 "''SELECT''" npos "''syntax error''" "addParameter_int 8 stmt0" 1]
    native_error_text [of 1 "''SELECT''" npos "''bad type''" "addParameter_int 8 stmt0" 1]
    native_error_text [of 1 "''SELECT''" npos "''gone away''" "addParameter_int 8 stmt0" 1 _ _ _ _ _ _ _ _ 100]
  by (simp add: stmt0_def addParameter_int_def addParameter_def)

text \<open>
  C3. \<open>fetch\<close> is tri-state: it returns true exactly when the native call returns 0, false
  exactly when it returns \<^verbatim>\<open>MYSQL_NO_DATA\<close>, and throws for every other value. The case
  labels of a \<^verbatim>\<open>switch\<close> are distinct, so \<^verbatim>\<open>MYSQL_NO_DATA\<close> is not 0.
\<close>

theorem fetch_tri_state:
  assumes "no_data \<noteq> 0"
  shows "(outcome (fetch no_data res this) = Inr True \<longleftrightarrow> res = 0)
       \<and> (outcome (fetch no_data res this) = Inr False \<longleftrightarrow> res = no_data)
       \<and> ((\<exists>e. outcome (fetch no_data res this) = Inl e) \<longleftrightarrow> res \<noteq> 0 \<and> res \<noteq> no_data)"
  using assms by (auto simp add: fetch_def)

theorem fetch_tri_state_witness:
  "(100 :: c_int) \<noteq> 0
   \<and> outcome (fetch 100 0 stmt0) = Inr True
   \<and> outcome (fetch 100 100 stmt0) = Inr False
   \<and> (\<exists>e. outcome (fetch 100 1 stmt0) = Inl e)"
proof -
  have h: "(100 :: c_int) \<noteq> 0" by simp
  show ?thesis
    using h fetch_tri_state [OF h, of 0 stmt0] fetch_tri_state [OF h, of 100 stmt0]
      fetch_tri_state [OF h, of 1 stmt0]
    by simp
qed

text \<open>
  C7. Each connection operation makes exactly one native call: \<open>connect\<close> throws if and only
  if the native call returns null, \<open>setAutoCommit\<close> throws if and only if it returns
  non-zero, and \<open>getServerVersion\<close> returns the native result and never throws.
\<close>

theorem connection_forwarding:
  "calls (connect host port database user password clientFlags r this)
     = [Mysql_real_connect (m_mysql this) host user password database port 0 clientFlags]
   \<and> ((\<exists>e. outcome (connect host port database user password clientFlags r this) = Inl e) \<longleftrightarrow> r = 0)
   \<and> after (connect host port database user password clientFlags r this) = this
   \<and> calls (setAutoCommit autoCommit r' this)
     = [Mysql_autocommit (m_mysql this) (if autoCommit then 1 else 0)]
   \<and> ((\<exists>e. outcome (setAutoCommit autoCommit r' this) = Inl e) \<longleftrightarrow> r' \<noteq> 0)
   \<and> after (setAutoCommit autoCommit r' this) = this
   \<and> calls (getServerVersion v this) = [Mysql_get_server_version (m_mysql this)]
   \<and> outcome (getServerVersion v this) = Inr v
   \<and> after (getServerVersion v this) = this"
  by (simp add: connect_def setAutoCommit_def getServerVersion_def)

lemma register_all:
  "m_parameters (foldl register this rs) = m_parameters this @ parameters_of rs
   \<and> m_results (foldl register this rs) = m_results this @ results_of rs"
proof (induction rs arbitrary: this)
  case Nil
  show ?case by simp
next
  case (Cons r rs)
  show ?case
    by (cases r) (simp_all add: Cons.IH addParameter_eq addResult_eq)
qed

text \<open>
  C8. \<open>addParameter\<close> and \<open>addResult\<close> append exactly one descriptor to the end of their own
  sequence, with the given tag, pointer and length and every other member zero; after any
  sequence of registrations both sequences hold the descriptors in call order.
\<close>

theorem add_appends_descriptor:
  "addParameter t b l this = this\<lparr>m_parameters := m_parameters this @ [descriptor t b l]\<rparr>
   \<and> addResult t b l this = this\<lparr>m_results := m_results this @ [descriptor t b l]\<rparr>
   \<and> m_parameters (foldl register this rs) = m_parameters this @ parameters_of rs
   \<and> m_results (foldl register this rs) = m_results this @ results_of rs"
  using register_all [of this rs] by (simp add: addParameter_eq addResult_eq)

text \<open>
  C9. \<open>bindParameters\<close> with no parameter registered, and \<open>bindResults\<close> with no result
  registered, throw the logic error, make no native call and leave the statement (its
  error code and both sequences) as it was.
\<close>

theorem bind_without_registration:
  "(m_parameters this = [] \<longrightarrow>
      bindParameters native_ret native_error this =
        \<lparr>calls = [], outcome = Inl (Logic_error ''there are no parameters''), after = this\<rparr>)
   \<and> (m_results this = [] \<longrightarrow>
      bindResults native_ret native_error this =
        \<lparr>calls = [], outcome = Inl (Logic_error ''there are no results''), after = this\<rparr>)"
  by (simp add: bindParameters_def bindResults_def)

theorem bind_without_registration_witness:
  "m_parameters stmt0 = [] \<and> m_results stmt0 = []
   \<and> calls (bindParameters 1 ''x'' stmt0) = []
   \<and> outcome (bindParameters 1 ''x'' stmt0) = Inl (Logic_error ''there are no parameters'')
   \<and> after (bindParameters 1 ''x'' stmt0) = stmt0
   \<and> calls (bindResults 1 ''x'' stmt0) = []
   \<and> outcome (bindResults 1 ''x'' stmt0) = Inl (Logic_error ''there are no results'')
   \<and> after (bindResults 1 ''x'' stmt0) = stmt0"
  using bind_without_registration [of stmt0 1 "''x''"] by (simp add: stmt0_def)

text \<open>
  C10. \<open>setParameterLength\<close> is bounds-checked: within range it changes the buffer length
  of the descriptor at the index and nothing else; out of range it throws the out-of-range
  error and the statement is unchanged.
\<close>

theorem setParameterLength_checked:
  "(unat index < length (m_parameters this) \<longrightarrow>
      outcome (setParameterLength index len this) = Inr ()
      \<and> calls (setParameterLength index len this) = []
      \<and> length (m_parameters (after (setParameterLength index len this))) = length (m_parameters this)
      \<and> buffer_length (m_parameters (after (setParameterLength index len this)) ! unat index) = len
      \<and> buffer_type (m_parameters (after (setParameterLength index len this)) ! unat index)
          = buffer_type (m_parameters this ! unat index)
      \<and> buffer (m_parameters (after (setParameterLength index len this)) ! unat index)
          = buffer (m_parameters this ! unat index)
      \<and> m_parameters (after (setParameterLength index len this)) ! unat index
          = (m_parameters this ! unat index)\<lparr>buffer_length := len\<rparr>
      \<and> (\<forall>j < length (m_parameters this). j \<noteq> unat index \<longrightarrow>
            m_parameters (after (setParameterLength index len this)) ! j = m_parameters this ! j)
      \<and> after (setParameterLength index len this)
          = this\<lparr>m_parameters := m_parameters (after (setParameterLength index len this))\<rparr>)
   \<and> (\<not> unat index < length (m_parameters this) \<longrightarrow>
      outcome (setParameterLength index len this) = Inl Out_of_range
      \<and> calls (setParameterLength index len this) = []
      \<and> after (setParameterLength index len this) = this)"
  by (simp add: setParameterLength_def)

theorem setParameterLength_checked_witness:
  "unat (0 :: size_t) < length (m_parameters (addParameter_string 16 10 stmt0))
   \<and> \<not> unat (1 :: size_t) < length (m_parameters (addParameter_string 16 10 stmt0))
   \<and> outcome (setParameterLength 0 5 (addParameter_string 16 10 stmt0)) = Inr ()
   \<and> m_parameters (after (setParameterLength 0 5 (addParameter_string 16 10 stmt0)))
       = [descriptor MYSQL_TYPE_STRING 16 5]
   \<and> outcome (setParameterLength 1 5 (addParameter_string 16 10 stmt0)) = Inl Out_of_range
   \<and> after (setParameterLength 1 5 (addParameter_string 16 10 stmt0))
       = addParameter_string 16 10 stmt0"
  using setParameterLength_checked [of 0 "addParameter_string 16 10 stmt0" 5]
    setParameterLength_checked [of 1 "addParameter_string 16 10 stmt0" 5]
  by (simp add: addParameter_string_def addParameter_eq stmt0_def descriptor_def
      setParameterLength_def)

section \<open>Invariants of shared ownership\<close>

lemma finite_holders: "finite (dom m) \<Longrightarrow> finite (holders m dep t)"
  by (rule finite_subset [of _ "dom m"]) (auto simp: holders_def)

lemma holders_dead:
  "m a = Some cb \<Longrightarrow> 0 < use_count cb \<Longrightarrow>
   holders (m(a \<mapsto> cb\<lparr>use_count := 0\<rparr>)) dep t =
     (if dep (managed cb) = Some t then holders m dep t - {a} else holders m dep t)"
  by (auto simp: holders_def)

lemma holders_same:
  "m a = Some cb \<Longrightarrow> (0 < use_count cb') = (0 < use_count cb) \<Longrightarrow>
   dep (managed cb') = dep (managed cb) \<Longrightarrow>
   holders (m(a \<mapsto> cb')) dep t = holders m dep t"
  by (auto simp: holders_def)

lemma holders_count:
  "m a = Some cb \<Longrightarrow> 0 < use_count cb \<Longrightarrow> 0 < n \<Longrightarrow>
   holders (m(a \<mapsto> cb\<lparr>use_count := n\<rparr>)) dep t = holders m dep t"
  by (auto simp: holders_def)

lemma holders_managed:
  "m a = Some cb \<Longrightarrow> dep x = dep (managed cb) \<Longrightarrow>
   holders (m(a \<mapsto> cb\<lparr>managed := x\<rparr>)) dep t = holders m dep t"
  by (auto simp: holders_def)

lemma holders_new:
  "m a = None \<Longrightarrow> 0 < use_count cb \<Longrightarrow>
   holders (m(a \<mapsto> cb)) dep t =
     (if dep (managed cb) = Some t then insert a (holders m dep t) else holders m dep t)"
  by (auto simp: holders_def)

lemma holders_member:
  "a \<in> holders m dep t \<longleftrightarrow> (\<exists>cb. m a = Some cb \<and> 0 < use_count cb \<and> dep (managed cb) = Some t)"
  by (simp add: holders_def)

lemma releases_append: "releases w (tr @ tr') = releases w tr @ releases w tr'"
  by (simp add: releases_def)

lemma releases_emit_other:
  "\<forall>c \<in> set cs. \<not> is_release c \<Longrightarrow> releases w (map (Pair w') cs) = []"
  by (induction cs) (simp_all add: releases_def)

lemma releases_emit_foreign: "w \<noteq> w' \<Longrightarrow> releases w (map (Pair w') cs) = []"
  by (induction cs) (simp_all add: releases_def)

lemma released_before_append:
  "released_before x y tr \<Longrightarrow> released_before x y (tr @ tr')"
  by (induction tr) (auto simp: released_before_def)

lemma released_before_last:
  "x \<in> set tr \<Longrightarrow> y \<notin> set tr \<Longrightarrow> released_before x y (tr @ y # tr')"
  by (induction tr) (auto simp: released_before_def)

lemma in_releases: "(w, c) \<in> set (releases w tr) \<longleftrightarrow> (w, c) \<in> set tr \<and> is_release c"
  by (auto simp: releases_def)

lemma emit_simps [simp]:
  "libraries (emit w cs p) = libraries p"
  "connections (emit w cs p) = connections p"
  "statements (emit w cs p) = statements p"
  "m_instance (emit w cs p) = m_instance p"
  "held (emit w cs p) = held p"
  "next_addr (emit w cs p) = next_addr p"
  "trace (emit w cs p) = trace p @ map (Pair w) cs"
  by (simp_all add: emit_def)

lemma invar_emit:
  assumes "invar H p" and "\<forall>c \<in> set cs. \<not> is_release c"
  shows "invar H (emit w cs p)"
proof -
  have r: "releases w' (trace p @ map (Pair w) cs) = releases w' (trace p)" for w'
    using assms(2) by (simp add: releases_append releases_emit_other)
  from assms(1) have "bounds_ok H (emit w cs p)" "counts_ok H (emit w cs p)"
    "single_ok (emit w cs p)"
    by (simp_all add: invar_def bounds_ok_def counts_ok_def single_ok_def)
  moreover from assms(1) have "trace_ok (emit w cs p)"
    by (simp add: invar_def trace_ok_def r)
  moreover from assms(1) have "order_ok (emit w cs p)"
    by (simp add: invar_def order_ok_def released_before_append)
  ultimately show ?thesis by (simp add: invar_def)
qed

lemma invar_alloc: "invar H p \<Longrightarrow> invar H (p\<lparr>next_addr := Suc (next_addr p)\<rparr>)"
  by (simp add: invar_def bounds_ok_def counts_ok_def single_ok_def trace_ok_def order_ok_def)
    (meson less_Suc_eq)


lemma held_library_live:
  "invar H p \<Longrightarrow> Library l \<in># H \<Longrightarrow> \<exists>cb. libraries p l = Some cb \<and> 0 < use_count cb"
  by (fastforce simp: invar_def bounds_ok_def counts_ok_def)

lemma held_connection_live:
  "invar H p \<Longrightarrow> Connection c \<in># H \<Longrightarrow> \<exists>cb. connections p c = Some cb \<and> 0 < use_count cb"
  by (fastforce simp: invar_def bounds_ok_def counts_ok_def)

lemma held_statement_live:
  "invar H p \<Longrightarrow> Statement s \<in># H \<Longrightarrow> \<exists>cb. statements p s = Some cb \<and> 0 < use_count cb"
  by (fastforce simp: invar_def bounds_ok_def counts_ok_def)

lemma single_okD:
  "single_ok p \<Longrightarrow> libraries p l = Some cb \<Longrightarrow> 0 < use_count cb \<Longrightarrow> m_instance p = Some l"
  by (simp add: single_ok_def)

lemma single_ok_count:
  assumes s: "single_ok p" and cb: "libraries p l = Some cb" "0 < use_count cb"
  shows "single_ok (p\<lparr>libraries := (libraries p)(l \<mapsto> cb\<lparr>use_count := n\<rparr>)\<rparr>)"
  unfolding single_ok_def
proof (intro allI impI)
  let ?p = "p\<lparr>libraries := (libraries p)(l \<mapsto> cb\<lparr>use_count := n\<rparr>)\<rparr>"
  fix l' cb'
  assume a: "libraries ?p l' = Some cb'" "0 < use_count cb'"
  show "m_instance ?p = Some l'"
  proof (cases "l' = l")
    case True
    with single_okD [OF s cb] show ?thesis by simp
  next
    case False
    with a single_okD [OF s, of l' cb'] show ?thesis by simp
  qed
qed

lemma invar_incr_library:
  assumes "invar H p" and "Library l \<in># H"
  shows "invar (add_mset (Library l) H) (incr_library l p)"
proof -
  from held_library_live [OF assms] obtain cb where
    cb: "libraries p l = Some cb" "0 < use_count cb" by blast
  let ?p = "p\<lparr>libraries := (libraries p)(l \<mapsto> cb\<lparr>use_count := Suc (use_count cb)\<rparr>)\<rparr>"
  have eq: "incr_library l p = ?p" by (simp add: incr_library_def cb)
  from assms(1) cb have "bounds_ok (add_mset (Library l) H) ?p"
    by (auto simp: invar_def bounds_ok_def)
  moreover from assms(1) cb have "counts_ok (add_mset (Library l) H) ?p"
    by (auto simp: invar_def counts_ok_def)
  moreover from assms(1) cb have "trace_ok ?p"
    by (auto simp: invar_def trace_ok_def)
  moreover from assms(1) cb have "order_ok ?p"
    by (auto simp: invar_def order_ok_def)
  moreover from assms(1) cb have "single_ok ?p"
    by (simp add: invar_def single_ok_count)
  ultimately show ?thesis by (simp add: invar_def eq)
qed


lemma invar_incr_connection:
  assumes "invar H p" and "Connection c \<in># H"
  shows "invar (add_mset (Connection c) H) (incr_connection c p)"
proof -
  from held_connection_live [OF assms] obtain cb where
    cb: "connections p c = Some cb" "0 < use_count cb" by blast
  let ?cb = "cb\<lparr>use_count := Suc (use_count cb)\<rparr>"
  let ?p = "p\<lparr>connections := (connections p)(c \<mapsto> ?cb)\<rparr>"
  have eq: "incr_connection c p = ?p" by (simp add: incr_connection_def cb)
  have h: "holders ((connections p)(c \<mapsto> ?cb)) m_library t = holders (connections p) m_library t" for t
    using cb by (simp add: holders_count)
  from assms(1) cb have "bounds_ok (add_mset (Connection c) H) ?p"
    by (auto simp: invar_def bounds_ok_def)
  moreover from assms(1) cb have "counts_ok (add_mset (Connection c) H) ?p"
    by (auto simp: invar_def counts_ok_def holders_count)
  moreover from assms(1) cb have "trace_ok ?p"
    by (auto simp: invar_def trace_ok_def)
  moreover from assms(1) cb have "order_ok ?p"
    by (auto simp: invar_def order_ok_def)
  moreover from assms(1) have "single_ok ?p"
    by (simp add: invar_def single_ok_def)
  ultimately show ?thesis by (simp add: invar_def eq)
qed

lemma invar_incr_statement:
  assumes "invar H p" and "Statement s \<in># H"
  shows "invar (add_mset (Statement s) H) (incr_statement s p)"
proof -
  from held_statement_live [OF assms] obtain cb where
    cb: "statements p s = Some cb" "0 < use_count cb" by blast
  let ?cb = "cb\<lparr>use_count := Suc (use_count cb)\<rparr>"
  let ?p = "p\<lparr>statements := (statements p)(s \<mapsto> ?cb)\<rparr>"
  have eq: "incr_statement s p = ?p" by (simp add: incr_statement_def cb)
  have h: "holders ((statements p)(s \<mapsto> ?cb)) conn_of t = holders (statements p) conn_of t" for t
    using cb by (simp add: holders_count)
  from assms(1) cb have "bounds_ok (add_mset (Statement s) H) ?p"
    by (auto simp: invar_def bounds_ok_def)
  moreover from assms(1) cb have "counts_ok (add_mset (Statement s) H) ?p"
    by (auto simp: invar_def counts_ok_def holders_count)
  moreover from assms(1) cb have "trace_ok ?p"
    by (auto simp: invar_def trace_ok_def)
  moreover from assms(1) cb have "order_ok ?p"
    by (auto simp: invar_def order_ok_def)
  moreover from assms(1) have "single_ok ?p"
    by (simp add: invar_def single_ok_def)
  ultimately show ?thesis by (simp add: invar_def eq)
qed


lemma not_in_trace:
  "releases w tr = [] \<Longrightarrow> is_release c \<Longrightarrow> (w, c) \<notin> set tr"
  using in_releases [of w c tr] by simp

lemma in_trace:
  "releases w tr = [(w, c)] \<Longrightarrow> (w, c) \<in> set tr"
  using in_releases [of w c tr] by simp

lemma trace_okD_conn:
  "trace_ok p \<Longrightarrow> connections p c = Some cb \<Longrightarrow>
   releases (Connection c) (trace p) =
     (if use_count cb = 0 then [(Connection c, Mysql_close (m_mysql (managed cb)))] else [])"
  by (auto simp: trace_ok_def split: option.splits dest: spec [of _ c])

lemma trace_okD_stmt:
  "trace_ok p \<Longrightarrow> statements p s = Some cb \<Longrightarrow>
   releases (Statement s) (trace p) =
     (if use_count cb = 0 then [(Statement s, Mysql_stmt_close (m_stmt (managed cb)))] else [])"
  by (auto simp: trace_ok_def split: option.splits dest: spec [of _ s])

lemma trace_okD_lib:
  "trace_ok p \<Longrightarrow> libraries p l = Some cb \<Longrightarrow>
   releases (Library l) (trace p) =
     (if use_count cb = 0 then [(Library l, Mysql_library_end)] else [])"
  by (auto simp: trace_ok_def split: option.splits dest: spec [of _ l])

lemma invar_release_library:
  assumes "invar (add_mset (Library l) H) p"
  shows "invar H (release_library l p)"
proof -
  from held_library_live [OF assms] obtain cb where
    cb: "libraries p l = Some cb" "0 < use_count cb" by auto
  from assms have b: "bounds_ok (add_mset (Library l) H) p" and c: "counts_ok (add_mset (Library l) H) p"
    and t: "trace_ok p" and o: "order_ok p" and s: "single_ok p"
    by (simp_all add: invar_def)
  from c cb have n: "use_count cb = Suc (count H (Library l)) + card (holders (connections p) m_library l)"
    by (simp add: counts_ok_def)
  show ?thesis
  proof (cases "use_count cb = 1")
    case False
    let ?cb = "cb\<lparr>use_count := use_count cb - 1\<rparr>"
    let ?p = "p\<lparr>libraries := (libraries p)(l \<mapsto> ?cb)\<rparr>"
    have eq: "release_library l p = ?p" using False by (simp add: release_library_def cb)
    from False cb have pos: "0 < use_count cb - 1" by simp
    from b cb have "bounds_ok H ?p"
      by (auto simp: bounds_ok_def)
    moreover from c cb n have "counts_ok H ?p"
      by (auto simp: counts_ok_def)
    moreover from t cb pos have "trace_ok ?p"
      by (auto simp: trace_ok_def)
    moreover from o cb pos have "order_ok ?p"
      by (auto simp: order_ok_def)
    moreover from s cb have "single_ok ?p"
      by (simp add: single_ok_count)
    ultimately show ?thesis by (simp add: invar_def eq)
  next
    case True
    let ?cb = "cb\<lparr>use_count := 0\<rparr>"
    let ?q = "p\<lparr>libraries := (libraries p)(l \<mapsto> ?cb)\<rparr>"
    let ?p = "emit (Library l) [Mysql_library_end] ?q"
    from t cb have "lib_errorCode (managed cb) = 0" by (simp add: trace_ok_def)
    then have eq: "release_library l p = ?p"
      using True by (simp add: release_library_def cb MySQLClientLibrary_dtor_def)
    from n True have h0: "count H (Library l) = 0" and "card (holders (connections p) m_library l) = 0"
      by simp_all
    with b have e: "holders (connections p) m_library l = {}"
      by (simp add: bounds_ok_def finite_holders)
    from True trace_okD_lib [OF t cb(1)] have r: "releases (Library l) (trace p) = []" by simp
    from b cb have "bounds_ok H ?p"
      by (auto simp: bounds_ok_def)
    moreover from c cb h0 e have "counts_ok H ?p"
      by (auto simp: counts_ok_def)
    moreover from t cb r have "trace_ok ?p"
      by (auto simp: trace_ok_def releases_append) (simp_all add: releases_def)
    moreover have "order_ok ?p"
      unfolding order_ok_def
    proof (intro conjI allI impI)
      fix s cbs cbc
      assume "statements ?p s = Some cbs" "connections ?p (m_conn (managed cbs)) = Some cbc"
        "use_count cbc = 0"
      with o show "released_before (Statement s, Mysql_stmt_close (m_stmt (managed cbs)))
          (Connection (m_conn (managed cbs)), Mysql_close (m_mysql (managed cbc))) (trace ?p)"
        by (simp add: order_ok_def released_before_append)
    next
      fix c cbc l' cbl
      assume a: "connections ?p c = Some cbc" "m_library (managed cbc) = Some l'"
        "libraries ?p l' = Some cbl" "use_count cbl = 0"
      show "released_before (Connection c, Mysql_close (m_mysql (managed cbc)))
          (Library l', Mysql_library_end) (trace ?p)"
      proof (cases "l' = l")
        case False
        with a o show ?thesis
          by (simp add: order_ok_def released_before_append)
      next
        case True
        from a True e have "use_count cbc = 0"
          by (auto simp: holders_def)
        with trace_okD_conn [OF t, of c cbc] a
        have "(Connection c, Mysql_close (m_mysql (managed cbc))) \<in> set (trace p)"
          by (simp add: in_trace)
        moreover from r have "(Library l, Mysql_library_end) \<notin> set (trace p)"
          by (simp add: not_in_trace)
        ultimately show ?thesis
          using True by (simp add: released_before_last)
      qed
    qed
    moreover from s cb have "single_ok ?p"
      using single_ok_count [OF s cb, of 0] by (simp add: single_ok_def)
    ultimately show ?thesis by (simp add: invar_def eq)
  qed
qed


lemma bounds_ok_library_dep:
  "bounds_ok H p \<Longrightarrow> connections p c = Some cb \<Longrightarrow> m_library (managed cb) = Some l \<Longrightarrow>
   l \<in> dom (libraries p)"
  unfolding bounds_ok_def by blast

lemma bounds_ok_connection_dep:
  "bounds_ok H p \<Longrightarrow> statements p s = Some cb \<Longrightarrow> m_conn (managed cb) \<in> dom (connections p)"
  unfolding bounds_ok_def by blast

lemma bounds_ok_held:
  "bounds_ok H p \<Longrightarrow> Library l \<in># H \<Longrightarrow> l \<in> dom (libraries p)"
  "bounds_ok H p \<Longrightarrow> Connection c \<in># H \<Longrightarrow> c \<in> dom (connections p)"
  "bounds_ok H p \<Longrightarrow> Statement s \<in># H \<Longrightarrow> s \<in> dom (statements p)"
  unfolding bounds_ok_def by blast+

lemma bounds_ok_fresh:
  "bounds_ok H p \<Longrightarrow> a \<in> dom (libraries p) \<Longrightarrow> a < next_addr p"
  "bounds_ok H p \<Longrightarrow> a \<in> dom (connections p) \<Longrightarrow> a < next_addr p"
  "bounds_ok H p \<Longrightarrow> a \<in> dom (statements p) \<Longrightarrow> a < next_addr p"
  unfolding bounds_ok_def by blast+

lemma bounds_ok_lt:
  "bounds_ok H p \<Longrightarrow> libraries p a = Some x \<Longrightarrow> a < next_addr p"
  "bounds_ok H p \<Longrightarrow> connections p a = Some y \<Longrightarrow> a < next_addr p"
  "bounds_ok H p \<Longrightarrow> statements p a = Some z \<Longrightarrow> a < next_addr p"
  unfolding bounds_ok_def by blast+

lemma extra_member:
  assumes H': "\<And>w. count H' w = count H w + (if P w then 1 else 0)"
  shows "w \<in># H' \<longleftrightarrow> w \<in># H \<or> P w"
proof -
  have "w \<in># H' \<longleftrightarrow> count H' w \<noteq> 0" by (simp add: count_eq_zero_iff)
  also have "\<dots> \<longleftrightarrow> count H w \<noteq> 0 \<or> P w" by (simp add: H' del: count_eq_zero_iff)
  also have "\<dots> \<longleftrightarrow> w \<in># H \<or> P w" by (simp add: count_eq_zero_iff)
  finally show ?thesis .
qed

lemma invar_kill_connection:
  assumes i: "invar (add_mset (Connection c) H) p"
    and cb: "connections p c = Some cb" and one: "use_count cb = 1"
    and H': "\<And>w. count H' w =
               count H w + (if map_option Library (m_library (managed cb)) = Some w then 1 else 0)"
  shows "invar H' (emit (Connection c) [Mysql_close (m_mysql (managed cb))]
           (p\<lparr>connections := (connections p)(c \<mapsto> cb\<lparr>use_count := 0\<rparr>)\<rparr>))"
proof -
  let ?cb = "cb\<lparr>use_count := 0\<rparr>"
  let ?q = "p\<lparr>connections := (connections p)(c \<mapsto> ?cb)\<rparr>"
  let ?y = "(Connection c, Mysql_close (m_mysql (managed cb)))"
  let ?p = "emit (Connection c) [Mysql_close (m_mysql (managed cb))] ?q"
  from i have b: "bounds_ok (add_mset (Connection c) H) p"
    and k: "counts_ok (add_mset (Connection c) H) p"
    and t: "trace_ok p" and o: "order_ok p" and s: "single_ok p"
    by (simp_all add: invar_def)
  from k cb have n: "use_count cb = Suc (count H (Connection c)) + card (holders (statements p) conn_of c)"
    by (simp add: counts_ok_def)
  from n one have h0: "count H (Connection c) = 0" and "card (holders (statements p) conn_of c) = 0"
    by simp_all
  with b have e: "holders (statements p) conn_of c = {}"
    by (simp add: bounds_ok_def finite_holders)
  from one trace_okD_conn [OF t cb] have r: "releases (Connection c) (trace p) = []" by simp
  have fin: "finite (holders (connections p) m_library l)" for l
    using b by (simp add: bounds_ok_def finite_holders)
  have mem: "m_library (managed cb) = Some l \<Longrightarrow> c \<in> holders (connections p) m_library l" for l
    using cb one by (simp add: holders_member)
  have card: "m_library (managed cb) = Some l \<Longrightarrow>
      card (holders (connections p) m_library l) =
        Suc (card (holders (connections p) m_library l - {c}))" for l
    by (rule card.remove [OF fin mem])
  have inH: "w \<in># H' \<longleftrightarrow> w \<in># H \<or> map_option Library (m_library (managed cb)) = Some w" for w
    using H' by (rule extra_member)
  have "bounds_ok H' ?p"
    unfolding bounds_ok_def
  proof (intro conjI allI impI ballI)
    show "finite (dom (connections ?p))" "finite (dom (statements ?p))"
      using b by (simp_all add: bounds_ok_def)
  next
    fix a assume "a \<in> dom (libraries ?p)"
    with b show "a < next_addr ?p" by (simp add: bounds_ok_def)
  next
    fix a assume "a \<in> dom (connections ?p)"
    with b cb show "a < next_addr ?p" by (auto simp add: bounds_ok_def)
  next
    fix a assume "a \<in> dom (statements ?p)"
    with b show "a < next_addr ?p" by (simp add: bounds_ok_def)
  next
    fix l assume "Library l \<in># H'"
    then have "Library l \<in># H \<or> m_library (managed cb) = Some l"
      by (auto simp: inH)
    with bounds_ok_held(1) [OF b, of l] bounds_ok_library_dep [OF b cb, of l]
    show "l \<in> dom (libraries ?p)"
      by auto
  next
    fix c' assume "Connection c' \<in># H'"
    then have "Connection c' \<in># H" by (auto simp: inH)
    with b show "c' \<in> dom (connections ?p)"
      by (auto simp add: bounds_ok_def)
  next
    fix s' assume "Statement s' \<in># H'"
    then have "Statement s' \<in># H" by (auto simp: inH)
    with b show "s' \<in> dom (statements ?p)"
      by (auto simp add: bounds_ok_def)
  next
    fix c' cbc l assume "connections ?p c' = Some cbc" "m_library (managed cbc) = Some l"
    with bounds_ok_library_dep [OF b cb, of l] bounds_ok_library_dep [OF b, of c' cbc l]
    show "l \<in> dom (libraries ?p)"
      by (cases "c' = c") (auto split: if_splits)
  next
    fix s' cbs assume "statements ?p s' = Some cbs"
    with bounds_ok_connection_dep [OF b, of s' cbs]
    show "m_conn (managed cbs) \<in> dom (connections ?p)"
      by auto
  qed
  moreover have "counts_ok H' ?p"
    unfolding counts_ok_def
  proof (intro conjI allI impI)
    fix l cbl
    assume a: "libraries ?p l = Some cbl"
    with k have u: "use_count cbl = count H (Library l) + card (holders (connections p) m_library l)"
      by (simp add: counts_ok_def)
    show "use_count cbl = count H' (Library l) + card (holders (connections ?p) m_library l)"
    proof (cases "m_library (managed cb) = Some l")
      case True
      with u card [OF True] cb one show ?thesis
        by (simp add: holders_dead H')
    next
      case False
      with u cb one show ?thesis
        by (auto simp add: holders_dead H')
    qed
  next
    fix c' cbc
    assume a: "connections ?p c' = Some cbc"
    show "use_count cbc = count H' (Connection c') + card (holders (statements ?p) conn_of c')"
    proof (cases "c' = c")
      case True
      with a h0 e show ?thesis by (auto simp: H')
    next
      case False
      with a k show ?thesis by (auto simp: counts_ok_def H')
    qed
  next
    fix s' cbs
    assume "statements ?p s' = Some cbs"
    with k show "use_count cbs = count H' (Statement s')"
      by (auto simp: counts_ok_def H')
  qed
  moreover from t cb r have "trace_ok ?p"
    by (auto simp: trace_ok_def releases_append) (simp_all add: releases_def)
  moreover have "order_ok ?p"
    unfolding order_ok_def
  proof (intro conjI allI impI)
    fix s' cbs cbc
    assume a: "statements ?p s' = Some cbs" "connections ?p (m_conn (managed cbs)) = Some cbc"
      "use_count cbc = 0"
    show "released_before (Statement s', Mysql_stmt_close (m_stmt (managed cbs)))
        (Connection (m_conn (managed cbs)), Mysql_close (m_mysql (managed cbc))) (trace ?p)"
    proof (cases "m_conn (managed cbs) = c")
      case False
      with a o show ?thesis
        by (simp add: order_ok_def released_before_append)
    next
      case True
      from a True e have "use_count cbs = 0"
        by (auto simp: holders_def conn_of_def)
      with trace_okD_stmt [OF t, of s' cbs] a
      have "(Statement s', Mysql_stmt_close (m_stmt (managed cbs))) \<in> set (trace p)"
        by (simp add: in_trace)
      moreover from r have "?y \<notin> set (trace p)"
        by (simp add: not_in_trace)
      ultimately show ?thesis
        using True a by (auto simp add: released_before_last)
    qed
  next
    fix c' cbc l' cbl
    assume a: "connections ?p c' = Some cbc" "m_library (managed cbc) = Some l'"
      "libraries ?p l' = Some cbl" "use_count cbl = 0"
    show "released_before (Connection c', Mysql_close (m_mysql (managed cbc)))
        (Library l', Mysql_library_end) (trace ?p)"
    proof (cases "c' = c")
      case False
      with a o show ?thesis
        by (simp add: order_ok_def released_before_append)
    next
      case True
      with a cb o have "released_before (Connection c, Mysql_close (m_mysql (managed cb)))
        (Library l', Mysql_library_end) (trace p)"
        by (auto simp: order_ok_def)
      with True a show ?thesis
        by (auto simp add: released_before_append)
    qed
  qed
  moreover from s have "single_ok ?p"
    by (simp add: single_ok_def)
  ultimately show ?thesis by (simp add: invar_def)
qed

lemma invar_release_connection:
  assumes "invar (add_mset (Connection c) H) p"
  shows "invar H (release_connection c p)"
proof -
  from held_connection_live [OF assms] obtain cb where
    cb: "connections p c = Some cb" "0 < use_count cb" by auto
  from assms have b: "bounds_ok (add_mset (Connection c) H) p"
    and k: "counts_ok (add_mset (Connection c) H) p"
    and t: "trace_ok p" and o: "order_ok p" and s: "single_ok p"
    by (simp_all add: invar_def)
  from k cb have n: "use_count cb = Suc (count H (Connection c)) + card (holders (statements p) conn_of c)"
    by (simp add: counts_ok_def)
  show ?thesis
  proof (cases "use_count cb = 1")
    case False
    let ?cb = "cb\<lparr>use_count := use_count cb - 1\<rparr>"
    let ?p = "p\<lparr>connections := (connections p)(c \<mapsto> ?cb)\<rparr>"
    have eq: "release_connection c p = ?p" using False by (simp add: release_connection_def cb)
    from False cb have pos: "0 < use_count cb - 1" by simp
    from b cb have "bounds_ok H ?p"
      by (auto simp: bounds_ok_def)
    moreover from k cb n pos have "counts_ok H ?p"
      by (auto simp: counts_ok_def holders_count)
    moreover from t cb pos have "trace_ok ?p"
      by (auto simp: trace_ok_def)
    moreover from o cb pos have "order_ok ?p"
      by (auto simp: order_ok_def)
    moreover from s have "single_ok ?p"
      by (simp add: single_ok_def)
    ultimately show ?thesis by (simp add: invar_def eq)
  next
    case True
    let ?p = "emit (Connection c) [Mysql_close (m_mysql (managed cb))]
                (p\<lparr>connections := (connections p)(c \<mapsto> cb\<lparr>use_count := 0\<rparr>)\<rparr>)"
    from t cb have "m_mysql (managed cb) \<noteq> 0" by (simp add: trace_ok_def)
    then have eq: "release_connection c p =
        (case m_library (managed cb) of None \<Rightarrow> ?p | Some l \<Rightarrow> release_library l ?p)"
      using True by (simp add: release_connection_def cb MySQLConnection_dtor_def Let_def)
    show ?thesis
    proof (cases "m_library (managed cb)")
      case None
      then have "invar H ?p"
        by (intro invar_kill_connection [OF assms cb(1) True]) simp
      with None eq show ?thesis by simp
    next
      case (Some l)
      then have "invar (add_mset (Library l) H) ?p"
        by (intro invar_kill_connection [OF assms cb(1) True]) auto
      with Some eq invar_release_library [of l H ?p] show ?thesis by simp
    qed
  qed
qed


lemma invar_kill_statement:
  assumes i: "invar (add_mset (Statement s) H) p"
    and cb: "statements p s = Some cb" and one: "use_count cb = 1"
  shows "invar (add_mset (Connection (m_conn (managed cb))) H)
           (emit (Statement s) [Mysql_stmt_close (m_stmt (managed cb))]
             (p\<lparr>statements := (statements p)(s \<mapsto> cb\<lparr>use_count := 0\<rparr>)\<rparr>))"
proof -
  let ?cb = "cb\<lparr>use_count := 0\<rparr>"
  let ?q = "p\<lparr>statements := (statements p)(s \<mapsto> ?cb)\<rparr>"
  let ?p = "emit (Statement s) [Mysql_stmt_close (m_stmt (managed cb))] ?q"
  let ?c = "m_conn (managed cb)"
  let ?H = "add_mset (Connection ?c) H"
  from i have b: "bounds_ok (add_mset (Statement s) H) p"
    and k: "counts_ok (add_mset (Statement s) H) p"
    and t: "trace_ok p" and o: "order_ok p" and so: "single_ok p"
    by (simp_all add: invar_def)
  from k cb one have h0: "count H (Statement s) = 0"
    by (simp add: counts_ok_def)
  from one trace_okD_stmt [OF t cb] have r: "releases (Statement s) (trace p) = []" by simp
  have fin: "finite (holders (statements p) conn_of c)" for c
    using b by (simp add: bounds_ok_def finite_holders)
  have mem: "s \<in> holders (statements p) conn_of ?c"
    using cb one by (simp add: holders_member conn_of_def)
  have card: "card (holders (statements p) conn_of ?c) =
        Suc (card (holders (statements p) conn_of ?c - {s}))"
    by (rule card.remove [OF fin mem])
  have "bounds_ok ?H ?p"
    unfolding bounds_ok_def
  proof (intro conjI allI impI ballI)
    show "finite (dom (connections ?p))" "finite (dom (statements ?p))"
      using b by (simp_all add: bounds_ok_def)
  next
    fix a assume "a \<in> dom (libraries ?p)"
    with b show "a < next_addr ?p" by (simp add: bounds_ok_def)
  next
    fix a assume "a \<in> dom (connections ?p)"
    with b show "a < next_addr ?p" by (simp add: bounds_ok_def)
  next
    fix a assume "a \<in> dom (statements ?p)"
    with b cb show "a < next_addr ?p" by (auto simp add: bounds_ok_def)
  next
    fix l assume "Library l \<in># ?H"
    with bounds_ok_held(1) [OF b, of l] show "l \<in> dom (libraries ?p)"
      by auto
  next
    fix c' assume "Connection c' \<in># ?H"
    with bounds_ok_held(2) [OF b, of c'] bounds_ok_connection_dep [OF b cb]
    show "c' \<in> dom (connections ?p)"
      by auto
  next
    fix s' assume "Statement s' \<in># ?H"
    with bounds_ok_held(3) [OF b, of s'] show "s' \<in> dom (statements ?p)"
      by auto
  next
    fix c' cbc l assume "connections ?p c' = Some cbc" "m_library (managed cbc) = Some l"
    with bounds_ok_library_dep [OF b, of c' cbc l]
    show "l \<in> dom (libraries ?p)"
      by auto
  next
    fix s' cbs assume "statements ?p s' = Some cbs"
    with bounds_ok_connection_dep [OF b, of s' cbs] bounds_ok_connection_dep [OF b cb]
    show "m_conn (managed cbs) \<in> dom (connections ?p)"
      by (cases "s' = s") (auto split: if_splits)
  qed
  moreover have "counts_ok ?H ?p"
    unfolding counts_ok_def
  proof (intro conjI allI impI)
    fix l cbl
    assume a: "libraries ?p l = Some cbl"
    with k show "use_count cbl = count ?H (Library l) + card (holders (connections ?p) m_library l)"
      by (simp add: counts_ok_def)
  next
    fix c' cbc
    assume a: "connections ?p c' = Some cbc"
    with k have u: "use_count cbc = count H (Connection c') + card (holders (statements p) conn_of c')"
      by (simp add: counts_ok_def)
    show "use_count cbc = count ?H (Connection c') + card (holders (statements ?p) conn_of c')"
    proof (cases "c' = ?c")
      case True
      with u card cb one show ?thesis
        by (simp add: holders_dead conn_of_def)
    next
      case False
      with u cb one show ?thesis
        by (auto simp add: holders_dead conn_of_def)
    qed
  next
    fix s' cbs
    assume a: "statements ?p s' = Some cbs"
    show "use_count cbs = count ?H (Statement s')"
    proof (cases "s' = s")
      case True
      with a h0 show ?thesis by auto
    next
      case False
      with a k show ?thesis by (auto simp: counts_ok_def)
    qed
  qed
  moreover from t cb r have "trace_ok ?p"
    by (auto simp: trace_ok_def releases_append) (simp_all add: releases_def)
  moreover have "order_ok ?p"
    unfolding order_ok_def
  proof (intro conjI allI impI)
    fix s' cbs cbc
    assume a: "statements ?p s' = Some cbs" "connections ?p (m_conn (managed cbs)) = Some cbc"
      "use_count cbc = 0"
    show "released_before (Statement s', Mysql_stmt_close (m_stmt (managed cbs)))
        (Connection (m_conn (managed cbs)), Mysql_close (m_mysql (managed cbc))) (trace ?p)"
    proof (cases "s' = s")
      case False
      with a o show ?thesis
        by (simp add: order_ok_def released_before_append)
    next
      case True
      with a cb o have "released_before (Statement s, Mysql_stmt_close (m_stmt (managed cb)))
        (Connection ?c, Mysql_close (m_mysql (managed cbc))) (trace p)"
        by (auto simp: order_ok_def)
      with True a show ?thesis
        by (auto simp add: released_before_append)
    qed
  next
    fix c' cbc l' cbl
    assume a: "connections ?p c' = Some cbc" "m_library (managed cbc) = Some l'"
      "libraries ?p l' = Some cbl" "use_count cbl = 0"
    with o show "released_before (Connection c', Mysql_close (m_mysql (managed cbc)))
        (Library l', Mysql_library_end) (trace ?p)"
      by (simp add: order_ok_def released_before_append)
  qed
  moreover from so have "single_ok ?p"
    by (simp add: single_ok_def)
  ultimately show ?thesis by (simp add: invar_def)
qed

lemma invar_release_statement:
  assumes "invar (add_mset (Statement s) H) p"
  shows "invar H (release_statement s p)"
proof -
  from held_statement_live [OF assms] obtain cb where
    cb: "statements p s = Some cb" "0 < use_count cb" by auto
  from assms have b: "bounds_ok (add_mset (Statement s) H) p"
    and k: "counts_ok (add_mset (Statement s) H) p"
    and t: "trace_ok p" and o: "order_ok p" and so: "single_ok p"
    by (simp_all add: invar_def)
  from k cb have n: "use_count cb = Suc (count H (Statement s))"
    by (simp add: counts_ok_def)
  show ?thesis
  proof (cases "use_count cb = 1")
    case False
    let ?cb = "cb\<lparr>use_count := use_count cb - 1\<rparr>"
    let ?p = "p\<lparr>statements := (statements p)(s \<mapsto> ?cb)\<rparr>"
    have eq: "release_statement s p = ?p" using False by (simp add: release_statement_def cb)
    from False cb have pos: "0 < use_count cb - 1" by simp
    from b cb have "bounds_ok H ?p"
      by (auto simp: bounds_ok_def)
    moreover from k cb n pos have "counts_ok H ?p"
      by (auto simp: counts_ok_def holders_count)
    moreover from t cb pos have "trace_ok ?p"
      by (auto simp: trace_ok_def)
    moreover from o cb pos have "order_ok ?p"
      by (auto simp: order_ok_def)
    moreover from so have "single_ok ?p"
      by (simp add: single_ok_def)
    ultimately show ?thesis by (simp add: invar_def eq)
  next
    case True
    let ?p = "emit (Statement s) [Mysql_stmt_close (m_stmt (managed cb))]
                (p\<lparr>statements := (statements p)(s \<mapsto> cb\<lparr>use_count := 0\<rparr>)\<rparr>)"
    from t cb have "m_stmt (managed cb) \<noteq> 0" by (simp add: trace_ok_def)
    then have eq: "release_statement s p = release_connection (m_conn (managed cb)) ?p"
      using True by (simp add: release_statement_def cb MySQLPreparedStatement_dtor_def Let_def)
    from invar_kill_statement [OF assms cb(1) True] eq show ?thesis
      by (simp add: invar_release_connection)
  qed
qed


lemma invar_incr_library_live:
  assumes "invar H p" and cb: "libraries p l = Some cb" "0 < use_count cb"
  shows "invar (add_mset (Library l) H) (incr_library l p)"
proof -
  let ?p = "p\<lparr>libraries := (libraries p)(l \<mapsto> cb\<lparr>use_count := Suc (use_count cb)\<rparr>)\<rparr>"
  have eq: "incr_library l p = ?p" by (simp add: incr_library_def cb)
  from assms(1) cb have "bounds_ok (add_mset (Library l) H) ?p"
    by (auto simp: invar_def bounds_ok_def)
  moreover from assms(1) cb have "counts_ok (add_mset (Library l) H) ?p"
    by (auto simp: invar_def counts_ok_def)
  moreover from assms(1) cb have "trace_ok ?p"
    by (auto simp: invar_def trace_ok_def)
  moreover from assms(1) cb have "order_ok ?p"
    by (auto simp: invar_def order_ok_def)
  moreover from assms(1) cb have "single_ok ?p"
    by (simp add: invar_def single_ok_count)
  ultimately show ?thesis by (simp add: invar_def eq)
qed

lemma no_live_library:
  assumes "single_ok p" and "lock p = None" and "libraries p l = Some cb"
  shows "use_count cb = 0"
proof (rule ccontr)
  assume "use_count cb \<noteq> 0"
  then have pos: "0 < use_count cb" by simp
  from single_okD [OF assms(1,3) pos] assms(3) pos have "lock p = Some l"
    by (simp add: lock_def)
  with assms(2) show False by simp
qed

lemma invar_new_library:
  assumes i: "invar H p" and none: "lock p = None"
  shows "invar (add_mset (Library (next_addr p)) H)
           (p\<lparr>next_addr := Suc (next_addr p),
              libraries := (libraries p)(next_addr p \<mapsto>
                \<lparr>managed = \<lparr>lib_errorCode = 0\<rparr>, use_count = 1\<rparr>),
              m_instance := Some (next_addr p)\<rparr>)"
proof -
  let ?a = "next_addr p"
  let ?p = "p\<lparr>next_addr := Suc ?a,
              libraries := (libraries p)(?a \<mapsto> \<lparr>managed = \<lparr>lib_errorCode = 0\<rparr>, use_count = 1\<rparr>),
              m_instance := Some ?a\<rparr>"
  let ?H = "add_mset (Library ?a) H"
  from i have b: "bounds_ok H p" and k: "counts_ok H p"
    and t: "trace_ok p" and o: "order_ok p" and so: "single_ok p"
    by (simp_all add: invar_def)
  have fresh: "libraries p ?a = None"
    using bounds_ok_fresh(1) [OF b, of ?a] by auto
  have notheld: "Library ?a \<notin># H"
    using bounds_ok_held(1) [OF b, of ?a] fresh by auto
  have nohold: "holders (connections p) m_library ?a = {}"
    using bounds_ok_library_dep [OF b, of _ _ ?a] fresh by (auto simp: holders_def)
  have "bounds_ok ?H ?p"
    unfolding bounds_ok_def
  proof (intro conjI allI impI ballI)
    show "finite (dom (connections ?p))" "finite (dom (statements ?p))"
      using b by (simp_all add: bounds_ok_def)
  next
    fix a assume "a \<in> dom (libraries ?p)"
    with bounds_ok_lt(1) [OF b, of a] show "a < next_addr ?p"
      by (auto simp: less_Suc_eq split: if_splits)
  next
    fix a assume "a \<in> dom (connections ?p)"
    with bounds_ok_lt(2) [OF b, of a] show "a < next_addr ?p"
      by (auto simp: less_Suc_eq split: if_splits)
  next
    fix a assume "a \<in> dom (statements ?p)"
    with bounds_ok_lt(3) [OF b, of a] show "a < next_addr ?p"
      by (auto simp: less_Suc_eq split: if_splits)
  next
    fix l assume "Library l \<in># ?H"
    with bounds_ok_held(1) [OF b, of l] show "l \<in> dom (libraries ?p)"
      by auto
  next
    fix c' assume "Connection c' \<in># ?H"
    with bounds_ok_held(2) [OF b, of c'] show "c' \<in> dom (connections ?p)"
      by auto
  next
    fix s' assume "Statement s' \<in># ?H"
    with bounds_ok_held(3) [OF b, of s'] show "s' \<in> dom (statements ?p)"
      by auto
  next
    fix c' cbc l assume "connections ?p c' = Some cbc" "m_library (managed cbc) = Some l"
    with bounds_ok_library_dep [OF b, of c' cbc l]
    show "l \<in> dom (libraries ?p)"
      by auto
  next
    fix s' cbs assume "statements ?p s' = Some cbs"
    with bounds_ok_connection_dep [OF b, of s' cbs]
    show "m_conn (managed cbs) \<in> dom (connections ?p)"
      by auto
  qed
  moreover have "counts_ok ?H ?p"
    unfolding counts_ok_def
  proof (intro conjI allI impI)
    fix l cbl
    assume a: "libraries ?p l = Some cbl"
    show "use_count cbl = count ?H (Library l) + card (holders (connections ?p) m_library l)"
    proof (cases "l = ?a")
      case True
      with a notheld nohold show ?thesis by (auto simp: count_eq_zero_iff)
    next
      case False
      with a k show ?thesis by (auto simp: counts_ok_def)
    qed
  next
    fix c' cbc
    assume "connections ?p c' = Some cbc"
    with k show "use_count cbc = count ?H (Connection c') + card (holders (statements ?p) conn_of c')"
      by (simp add: counts_ok_def)
  next
    fix s' cbs
    assume "statements ?p s' = Some cbs"
    with k show "use_count cbs = count ?H (Statement s')"
      by (simp add: counts_ok_def)
  qed
  moreover from t fresh have "trace_ok ?p"
    by (auto simp: trace_ok_def dest: spec [of _ ?a])
  moreover have "order_ok ?p"
    unfolding order_ok_def
  proof (intro conjI allI impI)
    fix s' cbs cbc
    assume "statements ?p s' = Some cbs" "connections ?p (m_conn (managed cbs)) = Some cbc"
      "use_count cbc = 0"
    with o show "released_before (Statement s', Mysql_stmt_close (m_stmt (managed cbs)))
        (Connection (m_conn (managed cbs)), Mysql_close (m_mysql (managed cbc))) (trace ?p)"
      by (simp add: order_ok_def)
  next
    fix c' cbc l' cbl
    assume a: "connections ?p c' = Some cbc" "m_library (managed cbc) = Some l'"
      "libraries ?p l' = Some cbl" "use_count cbl = 0"
    then have "l' \<noteq> ?a" by auto
    with a o show "released_before (Connection c', Mysql_close (m_mysql (managed cbc)))
        (Library l', Mysql_library_end) (trace ?p)"
      by (simp add: order_ok_def)
  qed
  moreover have "single_ok ?p"
    using no_live_library [OF so none] by (auto simp: single_ok_def)
  ultimately show ?thesis by (simp add: invar_def)
qed

lemma invar_new_connection:
  assumes i: "invar H0 p"
    and H0: "\<And>w. count H0 w =
               count H w + (if map_option Library library = Some w then 1 else 0)"
    and nz: "r \<noteq> 0"
  shows "invar (add_mset (Connection (next_addr p)) H)
           (p\<lparr>next_addr := Suc (next_addr p),
              connections := (connections p)(next_addr p \<mapsto>
                \<lparr>managed = \<lparr>m_library = library, m_mysql = r\<rparr>, use_count = 1\<rparr>)\<rparr>)"
proof -
  let ?a = "next_addr p"
  let ?new = "\<lparr>managed = \<lparr>m_library = library, m_mysql = r\<rparr>, use_count = 1\<rparr>"
  let ?p = "p\<lparr>next_addr := Suc ?a, connections := (connections p)(?a \<mapsto> ?new)\<rparr>"
  let ?H = "add_mset (Connection ?a) H"
  from i have b: "bounds_ok H0 p" and k: "counts_ok H0 p"
    and t: "trace_ok p" and o: "order_ok p" and so: "single_ok p"
    by (simp_all add: invar_def)
  have inH: "w \<in># H0 \<longleftrightarrow> w \<in># H \<or> map_option Library library = Some w" for w
    using H0 by (rule extra_member)
  have fresh: "connections p ?a = None"
    using bounds_ok_fresh(2) [OF b, of ?a] by auto
  have notheld: "Connection ?a \<notin># H"
    using bounds_ok_held(2) [OF b, of ?a] fresh by (auto simp: inH)
  have nohold: "holders (statements p) conn_of ?a = {}"
  proof -
    have False if "statements p x = Some cb" "m_conn (managed cb) = ?a" for x cb
      using bounds_ok_connection_dep [OF b that(1)] that(2) fresh by auto
    then show ?thesis by (auto simp: holders_def conn_of_def)
  qed
  have fin: "finite (holders (connections p) m_library l)" for l
    using b by (simp add: bounds_ok_def finite_holders)
  have notin: "?a \<notin> holders (connections p) m_library l" for l
    using fresh by (simp add: holders_member)
  have live: "library = Some l \<Longrightarrow> \<exists>cb. libraries p l = Some cb \<and> 0 < use_count cb" for l
    using held_library_live [OF i, of l] by (simp add: inH)
  have "bounds_ok ?H ?p"
    unfolding bounds_ok_def
  proof (intro conjI allI impI ballI)
    show "finite (dom (connections ?p))" "finite (dom (statements ?p))"
      using b by (simp_all add: bounds_ok_def)
  next
    fix a assume "a \<in> dom (libraries ?p)"
    with bounds_ok_lt(1) [OF b, of a] show "a < next_addr ?p"
      by (auto simp: less_Suc_eq split: if_splits)
  next
    fix a assume "a \<in> dom (connections ?p)"
    with bounds_ok_lt(2) [OF b, of a] show "a < next_addr ?p"
      by (auto simp: less_Suc_eq split: if_splits)
  next
    fix a assume "a \<in> dom (statements ?p)"
    with bounds_ok_lt(3) [OF b, of a] show "a < next_addr ?p"
      by (auto simp: less_Suc_eq split: if_splits)
  next
    fix l assume "Library l \<in># ?H"
    with bounds_ok_held(1) [OF b, of l] show "l \<in> dom (libraries ?p)"
      by (auto simp: inH)
  next
    fix c' assume "Connection c' \<in># ?H"
    with bounds_ok_held(2) [OF b, of c'] show "c' \<in> dom (connections ?p)"
      by (auto simp: inH)
  next
    fix s' assume "Statement s' \<in># ?H"
    with bounds_ok_held(3) [OF b, of s'] show "s' \<in> dom (statements ?p)"
      by (auto simp: inH)
  next
    fix c' cbc l assume "connections ?p c' = Some cbc" "m_library (managed cbc) = Some l"
    with bounds_ok_library_dep [OF b, of c' cbc l] live [of l]
    show "l \<in> dom (libraries ?p)"
      by (cases "c' = ?a") auto
  next
    fix s' cbs assume "statements ?p s' = Some cbs"
    with bounds_ok_connection_dep [OF b, of s' cbs]
    show "m_conn (managed cbs) \<in> dom (connections ?p)"
      by auto
  qed
  moreover have "counts_ok ?H ?p"
    unfolding counts_ok_def
  proof (intro conjI allI impI)
    fix l cbl
    assume a: "libraries ?p l = Some cbl"
    with k have u: "use_count cbl = count H0 (Library l) + card (holders (connections p) m_library l)"
      by (simp add: counts_ok_def)
    show "use_count cbl = count ?H (Library l) + card (holders (connections ?p) m_library l)"
    proof (cases "library = Some l")
      case True
      with u fresh fin [of l] notin [of l] show ?thesis
        by (simp add: holders_new H0)
    next
      case False
      with u fresh show ?thesis
        by (auto simp add: holders_new H0)
    qed
  next
    fix c' cbc
    assume a: "connections ?p c' = Some cbc"
    show "use_count cbc = count ?H (Connection c') + card (holders (statements ?p) conn_of c')"
    proof (cases "c' = ?a")
      case True
      with a notheld nohold show ?thesis by (auto simp: count_eq_zero_iff)
    next
      case False
      with a k show ?thesis by (auto simp: counts_ok_def H0)
    qed
  next
    fix s' cbs
    assume "statements ?p s' = Some cbs"
    with k show "use_count cbs = count ?H (Statement s')"
      by (simp add: counts_ok_def H0)
  qed
  moreover from t fresh nz have "trace_ok ?p"
    by (auto simp: trace_ok_def dest: spec [of _ ?a])
  moreover have "order_ok ?p"
    unfolding order_ok_def
  proof (intro conjI allI impI)
    fix s' cbs cbc
    assume a: "statements ?p s' = Some cbs" "connections ?p (m_conn (managed cbs)) = Some cbc"
      "use_count cbc = 0"
    then have "m_conn (managed cbs) \<noteq> ?a" by auto
    with a o show "released_before (Statement s', Mysql_stmt_close (m_stmt (managed cbs)))
        (Connection (m_conn (managed cbs)), Mysql_close (m_mysql (managed cbc))) (trace ?p)"
      by (simp add: order_ok_def)
  next
    fix c' cbc l' cbl
    assume a: "connections ?p c' = Some cbc" "m_library (managed cbc) = Some l'"
      "libraries ?p l' = Some cbl" "use_count cbl = 0"
    show "released_before (Connection c', Mysql_close (m_mysql (managed cbc)))
        (Library l', Mysql_library_end) (trace ?p)"
    proof (cases "c' = ?a")
      case True
      with a live [of l'] show ?thesis by auto
    next
      case False
      with a o show ?thesis by (simp add: order_ok_def)
    qed
  qed
  moreover from so have "single_ok ?p"
    by (simp add: single_ok_def)
  ultimately show ?thesis by (simp add: invar_def)
qed

lemma invar_new_statement:
  assumes i: "invar (add_mset (Connection c) H) p"
    and nz: "r \<noteq> 0"
  shows "invar (add_mset (Statement (next_addr p)) H)
           (p\<lparr>next_addr := Suc (next_addr p),
              statements := (statements p)(next_addr p \<mapsto>
                \<lparr>managed = \<lparr>m_conn = c, m_stmt = r, m_parameters = [], m_results = [],
                             m_errorCode = 0\<rparr>,
                 use_count = 1\<rparr>)\<rparr>)"
proof -
  let ?a = "next_addr p"
  let ?new = "\<lparr>managed = \<lparr>m_conn = c, m_stmt = r, m_parameters = [], m_results = [],
                             m_errorCode = 0\<rparr>, use_count = 1\<rparr>"
  let ?p = "p\<lparr>next_addr := Suc ?a, statements := (statements p)(?a \<mapsto> ?new)\<rparr>"
  let ?G = "add_mset (Connection c) H"
  let ?H = "add_mset (Statement ?a) H"
  from i have b: "bounds_ok ?G p" and k: "counts_ok ?G p"
    and t: "trace_ok p" and o: "order_ok p" and so: "single_ok p"
    by (simp_all add: invar_def)
  have fresh: "statements p ?a = None"
    using bounds_ok_fresh(3) [OF b, of ?a] by auto
  have notheld: "Statement ?a \<notin># H"
    using bounds_ok_held(3) [OF b, of ?a] fresh by auto
  have fin: "finite (holders (statements p) conn_of c')" for c'
    using b by (simp add: bounds_ok_def finite_holders)
  have notin: "?a \<notin> holders (statements p) conn_of c'" for c'
    using fresh by (simp add: holders_member)
  from held_connection_live [OF i, of c] obtain cbc0 where
    live: "connections p c = Some cbc0" "0 < use_count cbc0" by auto
  have "bounds_ok ?H ?p"
    unfolding bounds_ok_def
  proof (intro conjI allI impI ballI)
    show "finite (dom (connections ?p))" "finite (dom (statements ?p))"
      using b by (simp_all add: bounds_ok_def)
  next
    fix a assume "a \<in> dom (libraries ?p)"
    with bounds_ok_lt(1) [OF b, of a] show "a < next_addr ?p"
      by (auto simp: less_Suc_eq split: if_splits)
  next
    fix a assume "a \<in> dom (connections ?p)"
    with bounds_ok_lt(2) [OF b, of a] show "a < next_addr ?p"
      by (auto simp: less_Suc_eq split: if_splits)
  next
    fix a assume "a \<in> dom (statements ?p)"
    with bounds_ok_lt(3) [OF b, of a] show "a < next_addr ?p"
      by (auto simp: less_Suc_eq split: if_splits)
  next
    fix l assume "Library l \<in># ?H"
    with bounds_ok_held(1) [OF b, of l] show "l \<in> dom (libraries ?p)"
      by auto
  next
    fix c' assume "Connection c' \<in># ?H"
    with bounds_ok_held(2) [OF b, of c'] show "c' \<in> dom (connections ?p)"
      by auto
  next
    fix s' assume "Statement s' \<in># ?H"
    with bounds_ok_held(3) [OF b, of s'] show "s' \<in> dom (statements ?p)"
      by auto
  next
    fix c' cbc l assume "connections ?p c' = Some cbc" "m_library (managed cbc) = Some l"
    with bounds_ok_library_dep [OF b, of c' cbc l]
    show "l \<in> dom (libraries ?p)"
      by auto
  next
    fix s' cbs assume "statements ?p s' = Some cbs"
    with bounds_ok_connection_dep [OF b, of s' cbs] live
    show "m_conn (managed cbs) \<in> dom (connections ?p)"
      by (cases "s' = ?a") auto
  qed
  moreover have "counts_ok ?H ?p"
    unfolding counts_ok_def
  proof (intro conjI allI impI)
    fix l cbl
    assume "libraries ?p l = Some cbl"
    with k show "use_count cbl = count ?H (Library l) + card (holders (connections ?p) m_library l)"
      by (simp add: counts_ok_def)
  next
    fix c' cbc
    assume a: "connections ?p c' = Some cbc"
    with k have u: "use_count cbc = count ?G (Connection c') + card (holders (statements p) conn_of c')"
      by (simp add: counts_ok_def)
    show "use_count cbc = count ?H (Connection c') + card (holders (statements ?p) conn_of c')"
    proof (cases "c' = c")
      case True
      with u fresh fin [of c] notin [of c] show ?thesis
        by (simp add: holders_new conn_of_def)
    next
      case False
      with u fresh show ?thesis
        by (auto simp add: holders_new conn_of_def)
    qed
  next
    fix s' cbs
    assume a: "statements ?p s' = Some cbs"
    show "use_count cbs = count ?H (Statement s')"
    proof (cases "s' = ?a")
      case True
      with a notheld show ?thesis by (auto simp: count_eq_zero_iff)
    next
      case False
      with a k show ?thesis by (auto simp: counts_ok_def)
    qed
  qed
  moreover from t fresh nz have "trace_ok ?p"
    by (auto simp: trace_ok_def dest: spec [of _ ?a])
  moreover have "order_ok ?p"
    unfolding order_ok_def
  proof (intro conjI allI impI)
    fix s' cbs cbc
    assume a: "statements ?p s' = Some cbs" "connections ?p (m_conn (managed cbs)) = Some cbc"
      "use_count cbc = 0"
    show "released_before (Statement s', Mysql_stmt_close (m_stmt (managed cbs)))
        (Connection (m_conn (managed cbs)), Mysql_close (m_mysql (managed cbc))) (trace ?p)"
    proof (cases "s' = ?a")
      case True
      with a live show ?thesis by auto
    next
      case False
      with a o show ?thesis by (simp add: order_ok_def)
    qed
  next
    fix c' cbc l' cbl
    assume "connections ?p c' = Some cbc" "m_library (managed cbc) = Some l'"
      "libraries ?p l' = Some cbl" "use_count cbl = 0"
    with o show "released_before (Connection c', Mysql_close (m_mysql (managed cbc)))
        (Library l', Mysql_library_end) (trace ?p)"
      by (simp add: order_ok_def)
  qed
  moreover from so have "single_ok ?p"
    by (simp add: single_ok_def)
  ultimately show ?thesis by (simp add: invar_def)
qed

lemma connection_effect_same:
  "connection_effect op this = (cs, this') \<Longrightarrow> this' = this \<and> (\<forall>c \<in> set cs. \<not> is_release c)"
  by (cases op) (auto simp: connect_def setAutoCommit_def getServerVersion_def)

lemma statement_effect_same:
  "statement_effect op this = (cs, this') \<Longrightarrow>
   m_conn this' = m_conn this \<and> m_stmt this' = m_stmt this \<and> (\<forall>c \<in> set cs. \<not> is_release c)"
  by (cases op)
    (auto simp: prepare_def prepare_string_def addParameter_def addParameter_blob_def
      addParameter_char_def addParameter_short_def addParameter_int_def
      addParameter_long_long_def addParameter_float_def addParameter_double_def
      addParameter_string_def setParameterLength_def bindParameters_def
      addResult_def addResult_blob_def addResult_char_def addResult_short_def
      addResult_int_def addResult_long_long_def addResult_float_def addResult_double_def
      addResult_string_def bindResults_def execute_def fetch_def stop_def Let_def
      split: if_splits)

lemma invar_update_statement:
  assumes i: "invar H p" and cb: "statements p s = Some cb"
    and same: "m_conn x = m_conn (managed cb)" "m_stmt x = m_stmt (managed cb)"
  shows "invar H (p\<lparr>statements := (statements p)(s \<mapsto> cb\<lparr>managed := x\<rparr>)\<rparr>)"
proof -
  let ?p = "p\<lparr>statements := (statements p)(s \<mapsto> cb\<lparr>managed := x\<rparr>)\<rparr>"
  from i have b: "bounds_ok H p" and k: "counts_ok H p"
    and t: "trace_ok p" and o: "order_ok p" and so: "single_ok p"
    by (simp_all add: invar_def)
  have h: "holders ((statements p)(s \<mapsto> cb\<lparr>managed := x\<rparr>)) conn_of c = holders (statements p) conn_of c" for c
    using cb same by (simp add: holders_managed conn_of_def)
  have "bounds_ok H ?p"
    unfolding bounds_ok_def
  proof (intro conjI allI impI ballI)
    show "finite (dom (connections ?p))" "finite (dom (statements ?p))"
      using b by (simp_all add: bounds_ok_def)
  next
    fix a assume "a \<in> dom (libraries ?p)"
    with bounds_ok_lt(1) [OF b, of a] show "a < next_addr ?p"
      by auto
  next
    fix a assume "a \<in> dom (connections ?p)"
    with bounds_ok_lt(2) [OF b, of a] show "a < next_addr ?p"
      by auto
  next
    fix a assume "a \<in> dom (statements ?p)"
    with bounds_ok_lt(3) [OF b, of a] bounds_ok_lt(3) [OF b cb] show "a < next_addr ?p"
      by (auto split: if_splits)
  next
    fix l assume "Library l \<in># H"
    with bounds_ok_held(1) [OF b, of l] show "l \<in> dom (libraries ?p)"
      by auto
  next
    fix c' assume "Connection c' \<in># H"
    with bounds_ok_held(2) [OF b, of c'] show "c' \<in> dom (connections ?p)"
      by auto
  next
    fix s' assume "Statement s' \<in># H"
    with bounds_ok_held(3) [OF b, of s'] show "s' \<in> dom (statements ?p)"
      by auto
  next
    fix c' cbc l assume "connections ?p c' = Some cbc" "m_library (managed cbc) = Some l"
    with bounds_ok_library_dep [OF b, of c' cbc l]
    show "l \<in> dom (libraries ?p)"
      by auto
  next
    fix s' cbs assume "statements ?p s' = Some cbs"
    with bounds_ok_connection_dep [OF b, of s' cbs] bounds_ok_connection_dep [OF b cb] same
    show "m_conn (managed cbs) \<in> dom (connections ?p)"
      by (cases "s' = s") auto
  qed
  moreover from k cb have "counts_ok H ?p"
    by (auto simp: counts_ok_def h)
  moreover from t cb same have "trace_ok ?p"
    by (auto simp: trace_ok_def)
  moreover have "order_ok ?p"
    unfolding order_ok_def
  proof (intro conjI allI impI)
    fix s' cbs cbc
    assume a: "statements ?p s' = Some cbs" "connections ?p (m_conn (managed cbs)) = Some cbc"
      "use_count cbc = 0"
    show "released_before (Statement s', Mysql_stmt_close (m_stmt (managed cbs)))
        (Connection (m_conn (managed cbs)), Mysql_close (m_mysql (managed cbc))) (trace ?p)"
    proof (cases "s' = s")
      case True
      with a cb same o have "released_before (Statement s, Mysql_stmt_close (m_stmt (managed cb)))
        (Connection (m_conn (managed cb)), Mysql_close (m_mysql (managed cbc))) (trace p)"
        by (auto simp: order_ok_def)
      with True a same show ?thesis by auto
    next
      case False
      with a o show ?thesis by (simp add: order_ok_def)
    qed
  next
    fix c' cbc l' cbl
    assume "connections ?p c' = Some cbc" "m_library (managed cbc) = Some l'"
      "libraries ?p l' = Some cbl" "use_count cbl = 0"
    with o show "released_before (Connection c', Mysql_close (m_mysql (managed cbc)))
        (Library l', Mysql_library_end) (trace ?p)"
      by (simp add: order_ok_def)
  qed
  moreover from so have "single_ok ?p"
    by (simp add: single_ok_def)
  ultimately show ?thesis by (simp add: invar_def)
qed

lemma invar_on_statement: "invar H p \<Longrightarrow> invar H (on_statement s op p)"
proof (cases "statements p s")
  case None
  assume "invar H p"
  with None show ?thesis by (simp add: on_statement_def)
next
  case (Some cb)
  assume i: "invar H p"
  obtain cs x where e: "statement_effect op (managed cb) = (cs, x)"
    by (cases "statement_effect op (managed cb)")
  from statement_effect_same [OF e] invar_update_statement [OF i Some, of x]
  have "invar H (emit (Statement s) cs (p\<lparr>statements := (statements p)(s \<mapsto> cb\<lparr>managed := x\<rparr>)\<rparr>))"
    by (simp add: invar_emit)
  with Some e show ?thesis by (simp add: on_statement_def)
qed

lemma invar_on_connection: "invar H p \<Longrightarrow> invar H (on_connection c op p)"
proof (cases "connections p c")
  case None
  assume "invar H p"
  with None show ?thesis by (simp add: on_connection_def)
next
  case (Some cb)
  assume i: "invar H p"
  obtain cs x where e: "connection_effect op (managed cb) = (cs, x)"
    by (cases "connection_effect op (managed cb)")
  from connection_effect_same [OF e] have x: "x = managed cb" and cs: "\<forall>c \<in> set cs. \<not> is_release c"
    by simp_all
  from Some have "(connections p)(c \<mapsto> cb) = connections p"
    by (simp add: map_upd_triv)
  with x have "p\<lparr>connections := (connections p)(c \<mapsto> cb\<lparr>managed := x\<rparr>)\<rparr> = p"
    by simp
  with Some e invar_emit [OF i cs, of "Connection c"] show ?thesis
    by (simp add: on_connection_def)
qed

lemma emit_update_commute:
  "(emit w cs p)\<lparr>libraries := X, m_instance := Y\<rparr> = emit w cs (p\<lparr>libraries := X, m_instance := Y\<rparr>)"
  "(emit w cs p)\<lparr>connections := C\<rparr> = emit w cs (p\<lparr>connections := C\<rparr>)"
  "(emit w cs p)\<lparr>statements := S\<rparr> = emit w cs (p\<lparr>statements := S\<rparr>)"
  by (simp_all add: emit_def)

lemma lock_Some:
  "lock p = Some a \<Longrightarrow> \<exists>cb. libraries p a = Some cb \<and> 0 < use_count cb \<and> m_instance p = Some a"
  by (auto simp: lock_def split: option.splits if_splits)

lemma invar_createOrGet:
  assumes i: "invar H p"
  shows "case createOrGet argc argv groups r p of
           (Inl e, p') \<Rightarrow> invar H p'
         | (Inr a, p') \<Rightarrow> invar (add_mset (Library a) H) p'"
proof (cases "lock p")
  case (Some a)
  from lock_Some [OF Some] obtain cb where "libraries p a = Some cb" "0 < use_count cb"
    by blast
  from invar_incr_library_live [OF i this] Some show ?thesis
    by (simp add: createOrGet_def)
next
  case None
  let ?a = "next_addr p"
  let ?cs = "[Mysql_library_init argc argv groups]"
  show ?thesis
  proof (cases "r = 0")
    case False
    from invar_emit [OF invar_alloc [OF i], of ?cs "Library ?a"]
    have "invar H (emit (Library ?a) ?cs (p\<lparr>next_addr := Suc ?a\<rparr>))" by simp
    with None False show ?thesis
      by (simp add: createOrGet_def MySQLClientLibrary_ctor_def Let_def)
  next
    case True
    from invar_emit [OF invar_new_library [OF i None], of ?cs "Library ?a"]
    have "invar (add_mset (Library ?a) H)
       (emit (Library ?a) ?cs (p\<lparr>next_addr := Suc ?a,
              libraries := (libraries p)(?a \<mapsto> \<lparr>managed = \<lparr>lib_errorCode = 0\<rparr>, use_count = 1\<rparr>),
              m_instance := Some ?a\<rparr>))" by simp
    moreover have "createOrGet argc argv groups r p =
        (Inr ?a, emit (Library ?a) ?cs (p\<lparr>next_addr := Suc ?a,
              libraries := (libraries p)(?a \<mapsto> \<lparr>managed = \<lparr>lib_errorCode = 0\<rparr>, use_count = 1\<rparr>),
              m_instance := Some ?a\<rparr>))"
      using None True
      by (cases p) (simp add: createOrGet_def MySQLClientLibrary_ctor_def Let_def emit_def)
    ultimately show ?thesis by simp
  qed
qed

lemma invar_MySQLConnection_create:
  assumes i: "invar H p" and held: "\<And>l. library = Some l \<Longrightarrow> Library l \<in># H"
  shows "case MySQLConnection_create library r p of
           (Inl e, p') \<Rightarrow> invar H p'
         | (Inr a, p') \<Rightarrow> invar (add_mset (Connection a) H) p'"
proof -
  let ?a = "next_addr p"
  let ?cs = "[Mysql_init 0]"
  let ?G = "(case library of None \<Rightarrow> H | Some l \<Rightarrow> add_mset (Library l) H)"
  let ?p1 = "(case library of None \<Rightarrow> p | Some l \<Rightarrow> incr_library l p)"
  let ?p2 = "emit (Connection ?a) ?cs (?p1\<lparr>next_addr := Suc ?a\<rparr>)"
  have n1: "next_addr ?p1 = ?a"
    by (simp add: incr_library_def split: option.splits)
  have i1: "invar ?G ?p1"
    using i held invar_incr_library [OF i] by (cases library) simp_all
  from invar_emit [OF invar_alloc [OF i1], of ?cs "Connection ?a"] n1
  have i2: "invar ?G ?p2" by simp
  show ?thesis
  proof (cases "r = 0")
    case True
    show ?thesis
    proof (cases library)
      case None
      with i2 True show ?thesis
        by (simp add: MySQLConnection_create_def MySQLConnection_ctor_def Let_def)
    next
      case (Some l)
      with i2 invar_release_library [of l H ?p2] True show ?thesis
        by (simp add: MySQLConnection_create_def MySQLConnection_ctor_def Let_def)
    qed
  next
    case False
    have G: "count ?G w = count H w + (if map_option Library library = Some w then 1 else 0)" for w
      by (cases library) auto
    from invar_new_connection [OF i1 G False] n1
    have "invar (add_mset (Connection ?a) H)
           (?p1\<lparr>next_addr := Suc ?a,
              connections := (connections ?p1)(?a \<mapsto>
                \<lparr>managed = \<lparr>m_library = library, m_mysql = r\<rparr>, use_count = 1\<rparr>)\<rparr>)"
      by simp
    from invar_emit [OF this, of ?cs "Connection ?a"]
    have "invar (add_mset (Connection ?a) H)
           (emit (Connection ?a) ?cs (?p1\<lparr>next_addr := Suc ?a,
              connections := (connections ?p1)(?a \<mapsto>
                \<lparr>managed = \<lparr>m_library = library, m_mysql = r\<rparr>, use_count = 1\<rparr>)\<rparr>))"
      by simp
    moreover have "MySQLConnection_create library r p =
        (Inr ?a, emit (Connection ?a) ?cs (?p1\<lparr>next_addr := Suc ?a,
              connections := (connections ?p1)(?a \<mapsto>
                \<lparr>managed = \<lparr>m_library = library, m_mysql = r\<rparr>, use_count = 1\<rparr>)\<rparr>))"
      using False
      by (cases ?p1) (simp add: MySQLConnection_create_def MySQLConnection_ctor_def Let_def emit_def)
    ultimately show ?thesis by simp
  qed
qed

lemma invar_MySQLPreparedStatement_create:
  assumes i: "invar H p" and held: "Connection c \<in># H"
  shows "case MySQLPreparedStatement_create c r p of
           None \<Rightarrow> True
         | Some (Inl e, p') \<Rightarrow> invar H p'
         | Some (Inr a, p') \<Rightarrow> invar (add_mset (Statement a) H) p'"
proof -
  from held_connection_live [OF i held] obtain cbc where
    cbc: "connections p c = Some cbc" "0 < use_count cbc" by blast
  let ?a = "next_addr p"
  let ?cs = "[Mysql_stmt_init (m_mysql (managed cbc))]"
  let ?G = "add_mset (Connection c) H"
  let ?p1 = "incr_connection c p"
  let ?p2 = "emit (Statement ?a) ?cs (?p1\<lparr>next_addr := Suc ?a\<rparr>)"
  have n1: "next_addr ?p1 = ?a"
    by (simp add: incr_connection_def split: option.splits)
  have i1: "invar ?G ?p1"
    using invar_incr_connection [OF i held] .
  from invar_emit [OF invar_alloc [OF i1], of ?cs "Statement ?a"] n1
  have i2: "invar ?G ?p2" by simp
  show ?thesis
  proof (cases "r = 0")
    case True
    from i2 have "invar H (release_connection c ?p2)"
      by (rule invar_release_connection)
    with True cbc show ?thesis
      by (simp add: MySQLPreparedStatement_create_def MySQLPreparedStatement_ctor_def Let_def)
  next
    case False
    from invar_new_statement [OF i1 False] n1
    have "invar (add_mset (Statement ?a) H)
           (?p1\<lparr>next_addr := Suc ?a,
              statements := (statements ?p1)(?a \<mapsto>
                \<lparr>managed = \<lparr>m_conn = c, m_stmt = r, m_parameters = [], m_results = [],
                             m_errorCode = 0\<rparr>,
                 use_count = 1\<rparr>)\<rparr>)"
      by simp
    from invar_emit [OF this, of ?cs "Statement ?a"]
    have "invar (add_mset (Statement ?a) H)
           (emit (Statement ?a) ?cs (?p1\<lparr>next_addr := Suc ?a,
              statements := (statements ?p1)(?a \<mapsto>
                \<lparr>managed = \<lparr>m_conn = c, m_stmt = r, m_parameters = [], m_results = [],
                             m_errorCode = 0\<rparr>,
                 use_count = 1\<rparr>)\<rparr>))"
      by simp
    moreover have "MySQLPreparedStatement_create c r p =
        Some (Inr ?a, emit (Statement ?a) ?cs (?p1\<lparr>next_addr := Suc ?a,
              statements := (statements ?p1)(?a \<mapsto>
                \<lparr>managed = \<lparr>m_conn = c, m_stmt = r, m_parameters = [], m_results = [],
                             m_errorCode = 0\<rparr>,
                 use_count = 1\<rparr>)\<rparr>))"
      using False cbc
      by (cases ?p1) (simp add: MySQLPreparedStatement_create_def MySQLPreparedStatement_ctor_def
          Let_def emit_def)
    ultimately show ?thesis by simp
  qed
qed

lemma invar_held [simp]: "invar H (p\<lparr>held := hs\<rparr>) = invar H p"
  by (simp add: invar_def bounds_ok_def counts_ok_def trace_ok_def order_ok_def single_ok_def)

lemma held_incr [simp]:
  "held (incr_library l p) = held p"
  "held (incr_connection c p) = held p"
  "held (incr_statement s p) = held p"
  by (simp_all add: incr_library_def incr_connection_def incr_statement_def split: option.splits)

lemma held_release_library [simp]: "held (release_library l p) = held p"
  by (simp add: release_library_def split: option.splits)

lemma held_release_connection [simp]: "held (release_connection c p) = held p"
  by (simp add: release_connection_def Let_def split: option.splits)

lemma held_release_statement [simp]: "held (release_statement s p) = held p"
  by (simp add: release_statement_def Let_def split: option.splits)

lemma held_createOrGet: "createOrGet argc argv groups r p = (res, p') \<Longrightarrow> held p' = held p"
  by (auto simp: createOrGet_def Let_def split: option.splits sum.splits)

lemma held_MySQLConnection_create:
  "MySQLConnection_create library r p = (res, p') \<Longrightarrow> held p' = held p"
  by (auto simp: MySQLConnection_create_def Let_def split: option.splits sum.splits)

lemma held_MySQLPreparedStatement_create:
  "MySQLPreparedStatement_create c r p = Some (res, p') \<Longrightarrow> held p' = held p"
  by (auto simp: MySQLPreparedStatement_create_def Let_def split: option.splits sum.splits)

lemma held_on_connection [simp]: "held (on_connection c op p) = held p"
  by (simp add: on_connection_def split: option.splits prod.splits)

lemma held_on_statement [simp]: "held (on_statement s op p) = held p"
  by (simp add: on_statement_def split: option.splits prod.splits)

lemma mset_drop_nth:
  "i < length xs \<Longrightarrow> mset xs = add_mset (xs ! i) (mset (take i xs @ drop (Suc i) xs))"
proof -
  assume "i < length xs"
  then have "xs = take i xs @ xs ! i # drop (Suc i) xs"
    by (rule id_take_nth_drop)
  then have "mset xs = mset (take i xs @ xs ! i # drop (Suc i) xs)" by simp
  then show ?thesis by simp
qed

lemma invar_incr:
  "invar H p \<Longrightarrow> w \<in># H \<Longrightarrow> invar (add_mset w H) (incr w p)"
  by (cases w) (simp_all add: invar_incr_library invar_incr_connection invar_incr_statement)

lemma invar_release:
  "invar (add_mset w H) p \<Longrightarrow> invar H (release w p)"
  by (cases w) (simp_all add: invar_release_library invar_release_connection invar_release_statement)

lemma held_release [simp]: "held (release w p) = held p"
  by (cases w) simp_all

lemma held_incr_any [simp]: "held (incr w p) = held p"
  by (cases w) simp_all

lemma invar_step:
  assumes i: "invar (mset (held p)) p"
  shows "invar (mset (held (step p e))) (step p e)"
proof (cases e)
  case (CreateOrGet argc argv groups r)
  obtain res p' where c: "createOrGet argc argv groups r p = (res, p')"
    by (cases "createOrGet argc argv groups r p")
  from invar_createOrGet [OF i, of argc argv groups r] c held_createOrGet [OF c]
  show ?thesis
    using CreateOrGet by (cases res) (simp_all add: receive_def)
next
  case (CreateConnection io r)
  show ?thesis
  proof (cases io)
    case None
    obtain res p' where c: "MySQLConnection_create None r p = (res, p')"
      by (cases "MySQLConnection_create None r p")
    from invar_MySQLConnection_create [OF i, of None r] c held_MySQLConnection_create [OF c]
    show ?thesis
      using CreateConnection None by (cases res) (simp_all add: receive_def)
  next
    case (Some n)
    show ?thesis
    proof (cases "n < length (held p)")
      case False
      with i CreateConnection Some show ?thesis by simp
    next
      case True
      show ?thesis
      proof (cases "held p ! n")
        case (Library l)
        with True have h: "Library l \<in># mset (held p)"
          by (metis nth_mem set_mset_mset)
        obtain res p' where c: "MySQLConnection_create (Some l) r p = (res, p')"
          by (cases "MySQLConnection_create (Some l) r p")
        from invar_MySQLConnection_create [OF i, of "Some l" r] h c
          held_MySQLConnection_create [OF c]
        show ?thesis
          using CreateConnection Some True Library by (cases res) (simp_all add: receive_def)
      next
        case (Connection c)
        with i CreateConnection Some True show ?thesis by simp
      next
        case (Statement s)
        with i CreateConnection Some True show ?thesis by simp
      qed
    qed
  qed
next
  case (CreateStatement n r)
  show ?thesis
  proof (cases "n < length (held p)")
    case False
    with i CreateStatement show ?thesis by simp
  next
    case True
    show ?thesis
    proof (cases "held p ! n")
      case (Connection c)
      with True have h: "Connection c \<in># mset (held p)"
        by (metis nth_mem set_mset_mset)
      show ?thesis
      proof (cases "MySQLPreparedStatement_create c r p")
        case None
        with i CreateStatement True Connection show ?thesis by simp
      next
        case (Some x)
        obtain res p' where x: "x = (res, p')" by (cases x)
        from invar_MySQLPreparedStatement_create [OF i h, of r] Some x
          held_MySQLPreparedStatement_create [of c r p res p']
        show ?thesis
          using CreateStatement True Connection by (cases res) (simp_all add: receive_def)
      qed
    next
      case (Library l)
      with i CreateStatement True show ?thesis by simp
    next
      case (Statement s)
      with i CreateStatement True show ?thesis by simp
    qed
  qed
next
  case (Copy n)
  show ?thesis
  proof (cases "n < length (held p)")
    case False
    with i Copy show ?thesis by simp
  next
    case True
    then have "held p ! n \<in># mset (held p)"
      by (metis nth_mem set_mset_mset)
    from invar_incr [OF i this] True Copy show ?thesis
      by (simp add: receive_def)
  qed
next
  case (Release n)
  show ?thesis
  proof (cases "n < length (held p)")
    case False
    with i Release show ?thesis by simp
  next
    case True
    let ?hs = "take n (held p) @ drop (Suc n) (held p)"
    from i mset_drop_nth [OF True]
    have "invar (add_mset (held p ! n) (mset ?hs)) (drop_held n p)"
      by (simp add: drop_held_def)
    from invar_release [OF this] True Release show ?thesis
      by (simp add: drop_held_def)
  qed
next
  case (OnConnection n op)
  with i show ?thesis
    by (auto simp: invar_on_connection split: wrapper.splits)
next
  case (OnStatement n op)
  with i show ?thesis
    by (auto simp: invar_on_statement split: wrapper.splits)
qed

lemma invar_init: "invar {#} init_process"
  by (simp add: invar_def bounds_ok_def counts_ok_def trace_ok_def order_ok_def single_ok_def
      init_process_def releases_def holders_def)

lemma invar_foldl:
  "invar (mset (held p)) p \<Longrightarrow> invar (mset (held (foldl step p es))) (foldl step p es)"
  by (induction es arbitrary: p) (simp_all add: invar_step)

lemma invar_run: "invar (mset (held (run es))) (run es)"
  unfolding run_def using invar_init by (intro invar_foldl) (simp add: init_process_def)















lemma alive_library:
  "alive p (Library a) \<longleftrightarrow> (\<exists>cb. libraries p a = Some cb \<and> 0 < use_count cb)"
  by (auto simp: alive_def split: option.splits)

lemma lock_alive:
  assumes "single_ok p" and "alive p (Library a)"
  shows "lock p = Some a"
proof -
  from assms(2) obtain cb where cb: "libraries p a = Some cb" "0 < use_count cb"
    by (auto simp: alive_library)
  from single_okD [OF assms(1) cb] cb show ?thesis by (simp add: lock_def)
qed

lemma createOrGet_reuses:
  assumes "single_ok p" and "alive p (Library a)"
  shows "createOrGet argc argv groups r p = (Inr a, incr_library a p)"
  using lock_alive [OF assms] by (simp add: createOrGet_def)

lemma incr_library_effect:
  "trace (incr_library a p) = trace p"
  "next_addr (incr_library a p) = next_addr p"
  "dom (libraries (incr_library a p)) = dom (libraries p)"
  "connections (incr_library a p) = connections p"
  "statements (incr_library a p) = statements p"
  "use_count_of (incr_library a p) (Library a) = map_option Suc (use_count_of p (Library a))"
  by (auto simp: incr_library_def split: option.splits)

lemma failed_createOrGet:
  assumes "r \<noteq> 0" and "lock p = None"
  shows "createOrGet argc argv groups r p =
     (Inl (Runtime_error ''failed to initialize MySQL client library''),
      p\<lparr>next_addr := Suc (next_addr p),
        trace := trace p @ [(Library (next_addr p), Mysql_library_init argc argv groups)]\<rparr>)"
  using assms by (simp add: createOrGet_def MySQLClientLibrary_ctor_def Let_def emit_def)

lemma lock_None:
  assumes "\<forall>a. \<not> alive p (Library a)"
  shows "lock p = None"
proof (cases "lock p")
  case None
  then show ?thesis .
next
  case (Some a)
  from lock_Some [OF Some] have "alive p (Library a)"
    unfolding alive_library by blast
  with assms show ?thesis by simp
qed

lemma createOrGet_acquires:
  assumes "lock p = None"
  shows "createOrGet argc argv groups 0 p =
     (Inr (next_addr p),
      p\<lparr>next_addr := Suc (next_addr p),
        trace := trace p @ [(Library (next_addr p), Mysql_library_init argc argv groups)],
        libraries := (libraries p)(next_addr p \<mapsto>
          \<lparr>managed = \<lparr>lib_errorCode = 0\<rparr>, use_count = 1\<rparr>),
        m_instance := Some (next_addr p)\<rparr>)"
  using assms
  by (cases p) (simp add: createOrGet_def MySQLClientLibrary_ctor_def Let_def emit_def)

lemma run_one:
  "run [CreateOrGet 0 0 0 0] =
     \<lparr>libraries = [0 \<mapsto> \<lparr>managed = \<lparr>lib_errorCode = 0\<rparr>, use_count = 1\<rparr>],
      connections = Map.empty, statements = Map.empty,
      m_instance = Some 0, held = [Library 0], next_addr = 1,
      trace = [(Library 0, Mysql_library_init 0 0 0)]\<rparr>"
  by (simp add: run_def init_process_def createOrGet_def lock_def
      MySQLClientLibrary_ctor_def emit_def receive_def Let_def)

lemma run_released:
  "run [CreateOrGet 0 0 0 0, Release 0] =
     \<lparr>libraries = [0 \<mapsto> \<lparr>managed = \<lparr>lib_errorCode = 0\<rparr>, use_count = 0\<rparr>],
      connections = Map.empty, statements = Map.empty,
      m_instance = Some 0, held = [], next_addr = 1,
      trace = [(Library 0, Mysql_library_init 0 0 0), (Library 0, Mysql_library_end)]\<rparr>"
  by (simp add: run_def init_process_def createOrGet_def lock_def
      MySQLClientLibrary_ctor_def MySQLClientLibrary_dtor_def release_library_def
      emit_def receive_def drop_held_def Let_def)

text \<open>
  C5. \<open>createOrGet\<close> acquires or reuses. In every run at most one library object is alive.
  A call made while one is alive returns that object, with one more owner, makes no native
  call and constructs nothing. A call made while none is alive (none was created yet, or the
  last one was destroyed) calls \<^verbatim>\<open>mysql_library_init\<close> and, when that returns 0, constructs
  a new object at a fresh address, which is alive afterwards and becomes the instance; when
  it returns non-zero the call throws and still no library is alive.
\<close>

theorem single_library_instance:
  "(\<forall>a b. alive (run es) (Library a) \<longrightarrow> alive (run es) (Library b) \<longrightarrow> a = b)
   \<and> (\<forall>a. alive (run es) (Library a) \<longrightarrow>
        fst (createOrGet argc argv groups r (run es)) = Inr a
        \<and> trace (snd (createOrGet argc argv groups r (run es))) = trace (run es)
        \<and> next_addr (snd (createOrGet argc argv groups r (run es))) = next_addr (run es)
        \<and> dom (libraries (snd (createOrGet argc argv groups r (run es)))) = dom (libraries (run es))
        \<and> use_count_of (snd (createOrGet argc argv groups r (run es))) (Library a)
            = map_option Suc (use_count_of (run es) (Library a)))
   \<and> ((\<forall>a. \<not> alive (run es) (Library a)) \<longrightarrow>
        createOrGet argc argv groups 0 (run es) =
          (Inr (next_addr (run es)),
           (run es)\<lparr>next_addr := Suc (next_addr (run es)),
             trace := trace (run es) @
               [(Library (next_addr (run es)), Mysql_library_init argc argv groups)],
             libraries := (libraries (run es))(next_addr (run es) \<mapsto>
               \<lparr>managed = \<lparr>lib_errorCode = 0\<rparr>, use_count = 1\<rparr>),
             m_instance := Some (next_addr (run es))\<rparr>)
        \<and> next_addr (run es) \<notin> dom (libraries (run es))
        \<and> alive (snd (createOrGet argc argv groups 0 (run es))) (Library (next_addr (run es)))
        \<and> alive (run (es @ [CreateOrGet argc argv groups 0])) (Library (next_addr (run es)))
        \<and> (r \<noteq> 0 \<longrightarrow> (\<exists>e. fst (createOrGet argc argv groups r (run es)) = Inl e)
               \<and> (\<forall>a. \<not> alive (snd (createOrGet argc argv groups r (run es))) (Library a))))"
proof -
  from invar_run [of es] have s: "single_ok (run es)"
    and b: "bounds_ok (mset (held (run es))) (run es)" by (simp_all add: invar_def)
  have "a = b" if "alive (run es) (Library a)" "alive (run es) (Library b)" for a b
    using lock_alive [OF s that(1)] lock_alive [OF s that(2)] by simp
  moreover have "fst (createOrGet argc argv groups r (run es)) = Inr a
        \<and> trace (snd (createOrGet argc argv groups r (run es))) = trace (run es)
        \<and> next_addr (snd (createOrGet argc argv groups r (run es))) = next_addr (run es)
        \<and> dom (libraries (snd (createOrGet argc argv groups r (run es)))) = dom (libraries (run es))
        \<and> use_count_of (snd (createOrGet argc argv groups r (run es))) (Library a)
            = map_option Suc (use_count_of (run es) (Library a))"
    if "alive (run es) (Library a)" for a
    by (simp add: createOrGet_reuses [OF s that] incr_library_effect del: use_count_of.simps)
  moreover have "createOrGet argc argv groups 0 (run es) =
          (Inr (next_addr (run es)),
           (run es)\<lparr>next_addr := Suc (next_addr (run es)),
             trace := trace (run es) @
               [(Library (next_addr (run es)), Mysql_library_init argc argv groups)],
             libraries := (libraries (run es))(next_addr (run es) \<mapsto>
               \<lparr>managed = \<lparr>lib_errorCode = 0\<rparr>, use_count = 1\<rparr>),
             m_instance := Some (next_addr (run es))\<rparr>)
        \<and> next_addr (run es) \<notin> dom (libraries (run es))
        \<and> alive (snd (createOrGet argc argv groups 0 (run es))) (Library (next_addr (run es)))
        \<and> alive (run (es @ [CreateOrGet argc argv groups 0])) (Library (next_addr (run es)))
        \<and> (r \<noteq> 0 \<longrightarrow> (\<exists>e. fst (createOrGet argc argv groups r (run es)) = Inl e)
               \<and> (\<forall>a. \<not> alive (snd (createOrGet argc argv groups r (run es))) (Library a)))"
    if none: "\<forall>a. \<not> alive (run es) (Library a)"
  proof -
    from lock_None [OF none] have l: "lock (run es) = None" .
    note eq = createOrGet_acquires [OF l, of argc argv groups]
    from bounds_ok_fresh(1) [OF b, of "next_addr (run es)"]
    have fresh: "next_addr (run es) \<notin> dom (libraries (run es))" by auto
    have a1: "alive (snd (createOrGet argc argv groups 0 (run es))) (Library (next_addr (run es)))"
      by (simp add: eq alive_library)
    have "run (es @ [CreateOrGet argc argv groups 0])
        = step (run es) (CreateOrGet argc argv groups 0)"
      by (simp add: run_def)
    then have a2: "alive (run (es @ [CreateOrGet argc argv groups 0])) (Library (next_addr (run es)))"
      by (simp add: eq alive_library receive_def)
    have a3: "(\<exists>e. fst (createOrGet argc argv groups r (run es)) = Inl e)
               \<and> (\<forall>a. \<not> alive (snd (createOrGet argc argv groups r (run es))) (Library a))"
      if "r \<noteq> 0"
      using none by (simp add: failed_createOrGet [OF that l] alive_library)
    from eq fresh a1 a2 a3 show ?thesis by blast
  qed
  ultimately show ?thesis by blast
qed

theorem single_library_instance_witness:
  "alive (run [CreateOrGet 0 0 0 0]) (Library 0)
   \<and> fst (createOrGet 0 0 0 0 (run [CreateOrGet 0 0 0 0])) = Inr 0
   \<and> trace (snd (createOrGet 0 0 0 0 (run [CreateOrGet 0 0 0 0])))
       = [(Library 0, Mysql_library_init 0 0 0)]
   \<and> use_count_of (snd (createOrGet 0 0 0 0 (run [CreateOrGet 0 0 0 0]))) (Library 0) = Some 2
   \<and> (\<forall>a. \<not> alive (run [CreateOrGet 0 0 0 0, Release 0]) (Library a))
   \<and> fst (createOrGet 0 0 0 0 (run [CreateOrGet 0 0 0 0, Release 0])) = Inr 1
   \<and> trace (snd (createOrGet 0 0 0 0 (run [CreateOrGet 0 0 0 0, Release 0])))
       = [(Library 0, Mysql_library_init 0 0 0), (Library 0, Mysql_library_end),
          (Library 1, Mysql_library_init 0 0 0)]
   \<and> alive (snd (createOrGet 0 0 0 0 (run [CreateOrGet 0 0 0 0, Release 0]))) (Library 1)
   \<and> \<not> alive (snd (createOrGet 0 0 0 0 (run [CreateOrGet 0 0 0 0, Release 0]))) (Library 0)
   \<and> (1 :: c_int) \<noteq> 0
   \<and> (\<exists>e. fst (createOrGet 0 0 0 1 (run [CreateOrGet 0 0 0 0, Release 0])) = Inl e)"
proof -
  have h: "alive (run [CreateOrGet 0 0 0 0]) (Library 0)"
    by (simp add: run_one alive_def)
  have n: "\<forall>a. \<not> alive (run [CreateOrGet 0 0 0 0, Release 0]) (Library a)"
    by (simp add: run_released alive_library)
  have r: "(1 :: c_int) \<noteq> 0" by simp
  from single_library_instance [of "[CreateOrGet 0 0 0 0]" 0 0 0 0] h
  have 1: "fst (createOrGet 0 0 0 0 (run [CreateOrGet 0 0 0 0])) = Inr 0
   \<and> trace (snd (createOrGet 0 0 0 0 (run [CreateOrGet 0 0 0 0])))
       = [(Library 0, Mysql_library_init 0 0 0)]
   \<and> use_count_of (snd (createOrGet 0 0 0 0 (run [CreateOrGet 0 0 0 0]))) (Library 0) = Some 2"
    by (simp add: run_one)
  from single_library_instance [of "[CreateOrGet 0 0 0 0, Release 0]" 0 0 0 1] n r
  have 2: "createOrGet 0 0 0 0 (run [CreateOrGet 0 0 0 0, Release 0]) =
          (Inr (next_addr (run [CreateOrGet 0 0 0 0, Release 0])),
           (run [CreateOrGet 0 0 0 0, Release 0])
             \<lparr>next_addr := Suc (next_addr (run [CreateOrGet 0 0 0 0, Release 0])),
             trace := trace (run [CreateOrGet 0 0 0 0, Release 0]) @
               [(Library (next_addr (run [CreateOrGet 0 0 0 0, Release 0])),
                 Mysql_library_init 0 0 0)],
             libraries := (libraries (run [CreateOrGet 0 0 0 0, Release 0]))
               (next_addr (run [CreateOrGet 0 0 0 0, Release 0]) \<mapsto>
               \<lparr>managed = \<lparr>lib_errorCode = 0\<rparr>, use_count = 1\<rparr>),
             m_instance := Some (next_addr (run [CreateOrGet 0 0 0 0, Release 0]))\<rparr>)"
    and 3: "\<exists>e. fst (createOrGet 0 0 0 1 (run [CreateOrGet 0 0 0 0, Release 0])) = Inl e"
    by blast+
  have 4: "fst (createOrGet 0 0 0 0 (run [CreateOrGet 0 0 0 0, Release 0])) = Inr 1
   \<and> trace (snd (createOrGet 0 0 0 0 (run [CreateOrGet 0 0 0 0, Release 0])))
       = [(Library 0, Mysql_library_init 0 0 0), (Library 0, Mysql_library_end),
          (Library 1, Mysql_library_init 0 0 0)]
   \<and> alive (snd (createOrGet 0 0 0 0 (run [CreateOrGet 0 0 0 0, Release 0]))) (Library 1)
   \<and> \<not> alive (snd (createOrGet 0 0 0 0 (run [CreateOrGet 0 0 0 0, Release 0]))) (Library 0)"
    unfolding 2 by (simp add: run_released alive_library)
  from h n r 1 3 4 show ?thesis by blast
qed

lemma not_library_emit [simp]: "not_library a (emit w cs p) = not_library a p"
  by (simp add: not_library_def)

lemma not_library_held [simp]:
  "not_library a (receive w p) = not_library a p"
  "not_library a (drop_held i p) = not_library a p"
  by (simp_all add: not_library_def receive_def drop_held_def)

lemma not_library_incr_library [simp]: "not_library a (incr_library l p) = not_library a p"
  by (auto simp: not_library_def incr_library_def split: option.splits)

lemma not_library_incr_connection [simp]: "not_library a (incr_connection c p) = not_library a p"
  by (auto simp: not_library_def incr_connection_def split: option.splits)

lemma not_library_incr_statement [simp]: "not_library a (incr_statement s p) = not_library a p"
  by (auto simp: not_library_def incr_statement_def split: option.splits)

lemma not_library_release_library [simp]:
  "not_library a (release_library l p) = not_library a p"
  by (auto simp: not_library_def release_library_def split: option.splits)

lemma not_library_release_connection [simp]:
  "not_library a (release_connection c p) = not_library a p"
proof (cases "connections p c")
  case None
  then show ?thesis by (simp add: release_connection_def)
next
  case (Some cb)
  have "not_library a (p\<lparr>connections := X\<rparr>) = not_library a p" for X
    by (simp add: not_library_def)
  with Some show ?thesis
    by (cases "m_library (managed cb)") (simp_all add: release_connection_def Let_def)
qed

lemma not_library_release_statement [simp]:
  "not_library a (release_statement s p) = not_library a p"
proof (cases "statements p s")
  case None
  then show ?thesis by (simp add: release_statement_def)
next
  case (Some cb)
  have "not_library a (p\<lparr>statements := X\<rparr>) = not_library a p" for X
    by (simp add: not_library_def)
  with Some show ?thesis
    by (simp add: release_statement_def Let_def)
qed

lemma not_library_on_connection [simp]: "not_library a (on_connection c op p) = not_library a p"
proof -
  have "not_library a (p\<lparr>connections := X\<rparr>) = not_library a p" for X
    by (simp add: not_library_def)
  then show ?thesis
    by (simp add: on_connection_def split: option.splits prod.splits)
qed

lemma not_library_on_statement [simp]: "not_library a (on_statement s op p) = not_library a p"
proof -
  have "not_library a (p\<lparr>statements := X\<rparr>) = not_library a p" for X
    by (simp add: not_library_def)
  then show ?thesis
    by (simp add: on_statement_def split: option.splits prod.splits)
qed

lemma not_library_alloc:
  "not_library a p \<Longrightarrow> not_library a (p\<lparr>next_addr := Suc (next_addr p)\<rparr>)"
  by (simp add: not_library_def)

lemma not_library_createOrGet:
  assumes "not_library a p"
  shows "not_library a (snd (createOrGet argc argv groups r p))"
proof (cases "lock p")
  case (Some l)
  with assms show ?thesis by (simp add: createOrGet_def)
next
  case None
  from assms have "a \<noteq> next_addr p" by (simp add: not_library_def)
  with assms None show ?thesis
    by (simp add: createOrGet_def MySQLClientLibrary_ctor_def Let_def not_library_def emit_def)
qed

lemma next_addr_incr [simp]:
  "next_addr (incr_library l p) = next_addr p"
  "next_addr (incr_connection c p) = next_addr p"
  by (simp_all add: incr_library_def incr_connection_def split: option.splits)

lemma not_library_MySQLConnection_create:
  assumes "not_library a p"
  shows "not_library a (snd (MySQLConnection_create library r p))"
proof -
  have 3: "not_library a (q\<lparr>connections := X\<rparr>) = not_library a q" for q X
    by (simp add: not_library_def)
  show ?thesis
  proof (cases library)
    case None
    from assms have "not_library a (p\<lparr>next_addr := Suc (next_addr p)\<rparr>)"
      by (simp add: not_library_def)
    with None show ?thesis
      by (simp add: MySQLConnection_create_def MySQLConnection_ctor_def Let_def 3)
  next
    case (Some l)
    from assms have "not_library a (incr_library l p)" by simp
    then have "not_library a ((incr_library l p)\<lparr>next_addr := Suc (next_addr p)\<rparr>)"
      by (simp add: not_library_def)
    with Some show ?thesis
      by (simp add: MySQLConnection_create_def MySQLConnection_ctor_def Let_def 3)
  qed
qed

lemma not_library_MySQLPreparedStatement_create:
  assumes "not_library a p" and "MySQLPreparedStatement_create c r p = Some (res, p')"
  shows "not_library a p'"
proof -
  from assms(1) have "not_library a (incr_connection c p)" by simp
  then have 2: "not_library a ((incr_connection c p)\<lparr>next_addr := Suc (next_addr p)\<rparr>)"
    by (simp add: not_library_def)
  have 3: "not_library a (q\<lparr>statements := X\<rparr>) = not_library a q" for q X
    by (simp add: not_library_def)
  from 2 assms(2) show ?thesis
    by (auto simp: MySQLPreparedStatement_create_def MySQLPreparedStatement_ctor_def
        Let_def 3 split: option.splits if_splits)
qed

lemma not_library_incr [simp]: "not_library a (incr w p) = not_library a p"
  by (cases w) simp_all

lemma not_library_release [simp]: "not_library a (release w p) = not_library a p"
  by (cases w) simp_all

lemma not_library_step:
  assumes n: "not_library a p"
  shows "not_library a (step p e)"
proof (cases e)
  case (CreateOrGet argc argv groups r)
  with not_library_createOrGet [OF n, of argc argv groups r] show ?thesis
    by (auto split: prod.splits sum.splits)
next
  case (CreateConnection io r)
  show ?thesis
  proof (cases io)
    case None
    with CreateConnection not_library_MySQLConnection_create [OF n, of None r] show ?thesis
      by (auto split: prod.splits sum.splits)
  next
    case (Some i)
    show ?thesis
    proof (cases "held p ! i")
      case (Library l)
      with CreateConnection Some n not_library_MySQLConnection_create [OF n, of "Some l" r]
      show ?thesis
        by (auto split: prod.splits sum.splits)
    next
      case (Connection c)
      with CreateConnection Some n show ?thesis by simp
    next
      case (Statement s)
      with CreateConnection Some n show ?thesis by simp
    qed
  qed
next
  case (CreateStatement i r)
  show ?thesis
  proof (cases "held p ! i")
    case (Connection c)
    with CreateStatement n not_library_MySQLPreparedStatement_create [OF n, of c r]
    show ?thesis
      by (auto split: prod.splits sum.splits option.splits)
  next
    case (Library l)
    with CreateStatement n show ?thesis by simp
  next
    case (Statement s)
    with CreateStatement n show ?thesis by simp
  qed
next
  case (Copy i)
  with n show ?thesis by simp
next
  case (Release i)
  with n show ?thesis by simp
next
  case (OnConnection i op)
  with n show ?thesis by (simp split: wrapper.splits)
next
  case (OnStatement i op)
  with n show ?thesis by (simp split: wrapper.splits)
qed

lemma not_library_foldl: "not_library a p \<Longrightarrow> not_library a (foldl step p es)"
  by (induction es arbitrary: p) (simp_all add: not_library_step)

lemma run_append: "run (es @ e # es') = foldl step (step (run es) e) es'"
  by (simp add: run_def)

text \<open>
  C6. When \<^verbatim>\<open>mysql_library_init\<close> returns non-zero the constructor throws; \<open>createOrGet\<close>
  then leaves no library object behind (only the allocation counter and the trace change),
  and whatever the program does afterwards, no release call is ever made for the object
  whose construction failed.
\<close>

theorem failed_initialization:
  "r \<noteq> 0 \<longrightarrow>
     outcome (MySQLClientLibrary_ctor argc argv groups r)
       = Inl (Runtime_error ''failed to initialize MySQL client library'')
     \<and> (lock (run es) = None \<longrightarrow>
          createOrGet argc argv groups r (run es) =
            (Inl (Runtime_error ''failed to initialize MySQL client library''),
             (run es)\<lparr>next_addr := Suc (next_addr (run es)),
               trace := trace (run es) @
                 [(Library (next_addr (run es)), Mysql_library_init argc argv groups)]\<rparr>)
          \<and> (\<forall>es'. releases (Library (next_addr (run es)))
                       (trace (run (es @ CreateOrGet argc argv groups r # es'))) = []
                 \<and> (Library (next_addr (run es)), Mysql_library_end)
                       \<notin> set (trace (run (es @ CreateOrGet argc argv groups r # es')))))"
proof (intro impI conjI allI)
  assume r: "r \<noteq> 0"
  then show "outcome (MySQLClientLibrary_ctor argc argv groups r)
       = Inl (Runtime_error ''failed to initialize MySQL client library'')"
    by (simp add: MySQLClientLibrary_ctor_def)
  assume l: "lock (run es) = None"
  let ?a = "next_addr (run es)"
  let ?e = "CreateOrGet argc argv groups r"
  from failed_createOrGet [OF r l]
  show c: "createOrGet argc argv groups r (run es) =
            (Inl (Runtime_error ''failed to initialize MySQL client library''),
             (run es)\<lparr>next_addr := Suc ?a,
               trace := trace (run es) @ [(Library ?a, Mysql_library_init argc argv groups)]\<rparr>)" .
  fix es'
  let ?q = "run (es @ ?e # es')"
  from invar_run [of es] have "bounds_ok (mset (held (run es))) (run es)"
    by (simp add: invar_def)
  from bounds_ok_fresh(1) [OF this, of ?a] have "libraries (run es) ?a = None"
    by auto
  with c have "not_library ?a (step (run es) ?e)"
    by (simp add: not_library_def)
  then have "not_library ?a ?q"
    unfolding run_append by (rule not_library_foldl)
  then have none: "libraries ?q ?a = None" by (simp add: not_library_def)
  from invar_run [of "es @ ?e # es'"] have "trace_ok ?q" by (simp add: invar_def)
  with none show e: "releases (Library ?a) (trace ?q) = []"
    by (auto simp: trace_ok_def dest: spec [of _ ?a])
  then show "(Library ?a, Mysql_library_end) \<notin> set (trace ?q)"
    by (simp add: not_in_trace)
qed

lemma run_failed:
  "run [CreateOrGet 0 0 0 1, CreateOrGet 0 0 0 0, Release 0] =
     \<lparr>libraries = [1 \<mapsto> \<lparr>managed = \<lparr>lib_errorCode = 0\<rparr>, use_count = 0\<rparr>],
      connections = Map.empty, statements = Map.empty,
      m_instance = Some 1, held = [], next_addr = Suc (Suc 0),
      trace = [(Library 0, Mysql_library_init 0 0 0), (Library 1, Mysql_library_init 0 0 0),
               (Library 1, Mysql_library_end)]\<rparr>"
  by (simp add: run_def init_process_def createOrGet_def lock_def
      MySQLClientLibrary_ctor_def MySQLClientLibrary_dtor_def release_library_def
      emit_def receive_def drop_held_def Let_def)

theorem failed_initialization_witness:
  "(1 :: c_int) \<noteq> 0 \<and> lock (run []) = None
   \<and> fst (createOrGet 0 0 0 1 (run []))
       = Inl (Runtime_error ''failed to initialize MySQL client library'')
   \<and> trace (snd (createOrGet 0 0 0 1 (run []))) = [(Library 0, Mysql_library_init 0 0 0)]
   \<and> libraries (snd (createOrGet 0 0 0 1 (run []))) = Map.empty
   \<and> releases (Library 0)
        (trace (run [CreateOrGet 0 0 0 1, CreateOrGet 0 0 0 0, Release 0])) = []
   \<and> trace (run [CreateOrGet 0 0 0 1, CreateOrGet 0 0 0 0, Release 0])
       = [(Library 0, Mysql_library_init 0 0 0), (Library 1, Mysql_library_init 0 0 0),
          (Library 1, Mysql_library_end)]"
proof -
  have h: "(1 :: c_int) \<noteq> 0" "lock (run []) = None" "next_addr (run []) = 0"
    "libraries (run []) = Map.empty" "trace (run []) = []"
    by (simp_all add: run_def init_process_def lock_def)
  from failed_initialization [of 1 0 0 0 "[]"] h
  have "createOrGet 0 0 0 1 (run []) =
            (Inl (Runtime_error ''failed to initialize MySQL client library''),
             (run [])\<lparr>next_addr := Suc (next_addr (run [])),
               trace := trace (run []) @
                 [(Library (next_addr (run [])), Mysql_library_init 0 0 0)]\<rparr>)"
    and "releases (Library 0)
        (trace (run [CreateOrGet 0 0 0 1, CreateOrGet 0 0 0 0, Release 0])) = []"
    by simp_all
  with h show ?thesis by (simp add: run_failed)
qed

end
